theory Spec2Isabelle
  imports Main "HOL-Library.Word" "HOL-Library.Sublist"
begin

unbundle bit_operations_syntax

section \<open>Data model\<close>

text \<open>
  A Node \<open>Buffer\<close> is a list of bytes. A JavaScript \<open>Date\<close> is its number of
  milliseconds since the epoch. A file path is the list of the components handed to
  \<open>path.join\<close>.
\<close>

type_synonym Buffer = "8 word list"
type_synonym Date = int
type_synonym path = "string list"

text \<open>
  The collaborators that are not code of the service: the SHA-256 hex digest of
  \<open>crypto.createHash\<close> and the configured upload directory \<open>env.uploadDir\<close>.
\<close>

record env =
  sha256_hex :: "Buffer \<Rightarrow> string"
  uploadDir :: string

text \<open>
  \<open>CreateSessionParams\<close>, and the row of table \<open>upload_sessions\<close>, which carries the
  same columns and four more. Column \<open>created_at\<close> is filled by the database and never
  read by the service; it is left out.
\<close>

record CreateSessionParams =
  modpackVersionId :: string
  userId :: string
  type' :: string
  totalSize :: int
  totalChunks :: int
  chunkSize :: int
  finalHash :: string

record UploadSession = CreateSessionParams +
  id' :: string
  chunksReceived :: "int list"
  expiresAt :: Date
  completedAt :: "Date option"

text \<open>
  The state the service works on: the table, the contents of the files and the
  directories that exist.
\<close>

record world =
  uploadSession :: "UploadSession list"
  files :: "path \<rightharpoonup> Buffer"
  dirs :: "path set"

text \<open>
  The error classes of the service, the plain \<open>Error\<close> it throws with a message, and
  the two failures of the collaborators the service can run into: a file that is not
  there (\<open>readFile\<close>) and a row that is not there or already there (Prisma).
\<close>

datatype error =
    SessionNotFoundError string
  | SessionExpiredError string
  | ChunkHashMismatchError string string
  | ChunksMissingError "int list"
  | FinalHashMismatchError string string
  | Error string
  | ENOENT path
  | PrismaError string

record StoreChunkResult =
  sc_verified :: bool
  sc_session :: UploadSession
  sc_chunksReceived :: int
  sc_chunksRemaining :: int

record ReassembleResult =
  filePath :: path
  verified :: bool
  hash :: string

section \<open>Hash utilities\<close>

definition hashBuffer :: "env \<Rightarrow> Buffer \<Rightarrow> string" where
  "hashBuffer e buffer = ''sha256:'' @ sha256_hex e buffer"

text \<open>The regular expression \<open>/^sha256:[a-f0-9]{64}$/\<close>.\<close>

definition isValidHash :: "string \<Rightarrow> bool" where
  "isValidHash h =
     (take 7 h = ''sha256:'' \<and> length (drop 7 h) = 64 \<and>
      list_all (\<lambda>c. c \<in> set ''abcdef0123456789'') (drop 7 h))"

definition charCodeAt :: "string \<Rightarrow> nat \<Rightarrow> nat" where
  "charCodeAt s i = of_char (s ! i)"

function hashesMatch_loop :: "string \<Rightarrow> string \<Rightarrow> nat \<Rightarrow> nat \<Rightarrow> nat" where
  "hashesMatch_loop a b i result =
     (if i < length a
      then hashesMatch_loop a b (i + 1) (result OR (charCodeAt a i XOR charCodeAt b i))
      else result)"
  by pat_completeness auto
termination
  by (relation "measure (\<lambda>(a, b, i, result). length a - i)") auto

declare hashesMatch_loop.simps [simp del]

definition hashesMatch :: "string \<Rightarrow> string \<Rightarrow> bool" where
  "hashesMatch a b =
     (if length a \<noteq> length b then False else hashesMatch_loop a b 0 0 = 0)"

section \<open>Paths\<close>

definition SESSION_EXPIRY_HOURS :: int where
  "SESSION_EXPIRY_HOURS = 1"

definition SESSIONS_SUBDIR :: string where
  "SESSIONS_SUBDIR = ''sessions''"

text \<open>\<open>Number.prototype.toString\<close> on an integer, and \<open>String.prototype.padStart\<close>.\<close>

function toDigits :: "nat \<Rightarrow> string" where
  "toDigits n =
     (if n < 10 then [''0123456789'' ! n]
      else toDigits (n div 10) @ [''0123456789'' ! (n mod 10)])"
  by pat_completeness auto
termination
  by (relation "measure (\<lambda>n. n)") auto

declare toDigits.simps [simp del]

definition toString :: "int \<Rightarrow> string" where
  "toString i = (if i < 0 then CHR ''-'' # toDigits (nat (- i)) else toDigits (nat i))"

definition padStart :: "nat \<Rightarrow> char \<Rightarrow> string \<Rightarrow> string" where
  "padStart n c s = replicate (n - length s) c @ s"

definition getSessionDir :: "env \<Rightarrow> string \<Rightarrow> path" where
  "getSessionDir e sessionId = [uploadDir e, SESSIONS_SUBDIR, sessionId]"

definition getChunkPath :: "env \<Rightarrow> string \<Rightarrow> int \<Rightarrow> path" where
  "getChunkPath e sessionId chunkIndex =
     (let paddedIndex = padStart 6 (CHR ''0'') (toString chunkIndex)
      in getSessionDir e sessionId @ [''chunk-'' @ paddedIndex])"

definition getCompletePath :: "env \<Rightarrow> string \<Rightarrow> path" where
  "getCompletePath e sessionId = getSessionDir e sessionId @ [''complete'']"

section \<open>The collaborators: Prisma and the file system\<close>

definition findUnique :: "UploadSession list \<Rightarrow> string \<Rightarrow> UploadSession option" where
  "findUnique tbl sessionId = find (\<lambda>r. id' r = sessionId) tbl"

text \<open>
  Columns \<open>total_size\<close>, \<open>total_chunks\<close> and \<open>chunk_size\<close> of \<open>upload_sessions\<close> are
  \<open>INTEGER\<close>: 32 bits, signed. \<open>create\<close> refuses a number that does not fit and a
  primary key that is taken; \<open>update\<close> refuses a missing row. The rows of the table are
  the rows \<open>create\<close> admitted.
\<close>

definition isInt32 :: "int \<Rightarrow> bool" where
  "isInt32 n = (- 2147483648 \<le> n \<and> n \<le> 2147483647)"

definition prisma_create ::
  "UploadSession list \<Rightarrow> UploadSession \<Rightarrow> error + (UploadSession \<times> UploadSession list)" where
  "prisma_create tbl r =
     (if \<not> (isInt32 (totalSize r) \<and> isInt32 (totalChunks r) \<and> isInt32 (chunkSize r))
      then Inl (PrismaError ''Value out of range for the type'')
      else
        (case findUnique tbl (id' r) of
           Some _ \<Rightarrow> Inl (PrismaError ''Unique constraint failed'')
         | None \<Rightarrow> Inr (r, tbl @ [r])))"

definition prisma_update ::
  "UploadSession list \<Rightarrow> string \<Rightarrow> (UploadSession \<Rightarrow> UploadSession) \<Rightarrow>
   (UploadSession \<times> UploadSession list) option" where
  "prisma_update tbl sessionId f =
     (case findUnique tbl sessionId of
        None \<Rightarrow> None
      | Some r \<Rightarrow> Some (f r, map (\<lambda>x. if id' x = sessionId then f x else x) tbl))"


text \<open>
  \<open>writeFile\<close> creates or replaces a file in a directory that exists and fails with
  \<open>ENOENT\<close> when the directory does not; \<open>mkdir\<close> with \<open>recursive\<close> makes the directory
  and the ones above it.
\<close>

definition writeFile :: "world \<Rightarrow> path \<Rightarrow> Buffer \<Rightarrow> error + world" where
  "writeFile w p d =
     (if butlast p \<in> dirs w then Inr (w\<lparr>files := (files w)(p \<mapsto> d)\<rparr>)
      else Inl (ENOENT p))"

definition mkdir :: "world \<Rightarrow> path \<Rightarrow> world" where
  "mkdir w dir = w\<lparr>dirs := dirs w \<union> {p. prefix p dir}\<rparr>"

definition readFile :: "world \<Rightarrow> path \<Rightarrow> error + Buffer" where
  "readFile w p = (case files w p of None \<Rightarrow> Inl (ENOENT p) | Some d \<Rightarrow> Inr d)"

text \<open>\<open>rm(dir, {recursive: true, force: true})\<close>: everything under \<open>dir\<close> goes.\<close>

definition rm_rf :: "world \<Rightarrow> path \<Rightarrow> world" where
  "rm_rf w dir =
     w\<lparr>files := (\<lambda>p. if prefix dir p then None else files w p),
       dirs := dirs w - {p. prefix dir p}\<rparr>"

text \<open>
  A JavaScript \<open>Set\<close> of numbers keeps its elements in insertion order, each once:
  \<open>new Set(array)\<close>, \<open>add\<close>, \<open>has\<close> and \<open>Array.from\<close>.
\<close>

definition Set_from :: "int list \<Rightarrow> int list" where
  "Set_from xs = rev (remdups (rev xs))"

definition Set_add :: "int list \<Rightarrow> int \<Rightarrow> int list" where
  "Set_add s x = (if x \<in> set s then s else s @ [x])"

definition Set_has :: "int list \<Rightarrow> int \<Rightarrow> bool" where
  "Set_has s x = (x \<in> set s)"

section \<open>The upload session service\<close>

text \<open>
  Each function takes the state and returns its result with the state it leaves, also
  when it throws: \<open>reassembleAndVerify\<close> has written a file by the time it throws
  \<open>FinalHashMismatchError\<close>. Argument \<open>now\<close> is what \<open>new Date()\<close> or \<open>Date.now()\<close>
  reads during the call, and \<open>newId\<close> is the id Prisma gives the new row.
  The directory of a session is made by \<open>createUploadSession\<close> and removed by
  \<open>cleanupSessionFiles\<close>; \<open>storeChunk\<close> and \<open>reassembleAndVerify\<close> write into it
  without making it.
\<close>

definition createUploadSession ::
  "env \<Rightarrow> world \<Rightarrow> Date \<Rightarrow> string \<Rightarrow> CreateSessionParams \<Rightarrow> (error + UploadSession) \<times> world" where
  "createUploadSession e w now newId params =
     (let expires = now + SESSION_EXPIRY_HOURS * 60 * 60 * 1000 in
      if \<not> isValidHash (finalHash params)
      then (Inl (Error (''Invalid hash format: '' @ finalHash params)), w)
      else
        (case prisma_create (uploadSession w)
                \<lparr>modpackVersionId = modpackVersionId params,
                 userId = userId params,
                 type' = type' params,
                 totalSize = totalSize params,
                 totalChunks = totalChunks params,
                 chunkSize = chunkSize params,
                 finalHash = finalHash params,
                 id' = newId,
                 chunksReceived = [],
                 expiresAt = expires,
                 completedAt = None\<rparr> of
           Inl err \<Rightarrow> (Inl err, w)
         | Inr (session, tbl) \<Rightarrow>
             (let sessionDir = getSessionDir e (id' session)
              in (Inr session, mkdir (w\<lparr>uploadSession := tbl\<rparr>) sessionDir))))"

definition storeChunk ::
  "env \<Rightarrow> world \<Rightarrow> Date \<Rightarrow> string \<Rightarrow> int \<Rightarrow> Buffer \<Rightarrow> string \<Rightarrow>
   (error + StoreChunkResult) \<times> world" where
  "storeChunk e w now sessionId chunkIndex data expectedHash =
     (case findUnique (uploadSession w) sessionId of
        None \<Rightarrow> (Inl (SessionNotFoundError sessionId), w)
      | Some session \<Rightarrow>
          if expiresAt session < now then (Inl (SessionExpiredError sessionId), w)
          else if chunkIndex < 0 \<or> chunkIndex \<ge> totalChunks session
          then (Inl (Error (''Invalid chunk index: '' @ toString chunkIndex @
                  '' (expected 0-'' @ toString (totalChunks session - 1) @ '')'')), w)
          else
            (let actualHash = hashBuffer e data in
             if \<not> hashesMatch actualHash expectedHash
             then (Inl (ChunkHashMismatchError expectedHash actualHash), w)
             else
               (let chunkPath = getChunkPath e sessionId chunkIndex
                in case writeFile w chunkPath data of
                     Inl err \<Rightarrow> (Inl err, w)
                   | Inr w1 \<Rightarrow>
                       (let currentChunks =
                              Set_add (Set_from (chunksReceived session)) chunkIndex;
                            updatedChunks = sort currentChunks
                        in case prisma_update (uploadSession w1) sessionId
                                  (\<lambda>r. r\<lparr>chunksReceived := updatedChunks\<rparr>) of
                             None \<Rightarrow> (Inl (PrismaError ''Record to update not found''), w1)
                           | Some (updatedSession, tbl) \<Rightarrow>
                               (Inr \<lparr>sc_verified = True,
                                     sc_session = updatedSession,
                                     sc_chunksReceived = int (length updatedChunks),
                                     sc_chunksRemaining =
                                       totalChunks session - int (length updatedChunks)\<rparr>,
                                w1\<lparr>uploadSession := tbl\<rparr>)))))"

text \<open>
  The \<open>for\<close> loops of \<open>getMissingChunks\<close> and \<open>reassembleAndVerify\<close> count \<open>i\<close> from 0
  up to \<open>session.totalChunks\<close>; the list they push to is their last argument.
\<close>

definition getSessionStatus :: "world \<Rightarrow> string \<Rightarrow> UploadSession option" where
  "getSessionStatus w sessionId = findUnique (uploadSession w) sessionId"

function getMissingChunks_loop :: "int list \<Rightarrow> int \<Rightarrow> int \<Rightarrow> int list \<Rightarrow> int list" where
  "getMissingChunks_loop receivedSet limit i missing =
     (if i < limit
      then getMissingChunks_loop receivedSet limit (i + 1)
             (if \<not> Set_has receivedSet i then missing @ [i] else missing)
      else missing)"
  by pat_completeness auto
termination
  by (relation "measure (\<lambda>(receivedSet, limit, i, missing). nat (limit - i))") auto

declare getMissingChunks_loop.simps [simp del]

definition getMissingChunks :: "UploadSession \<Rightarrow> int list" where
  "getMissingChunks session =
     getMissingChunks_loop (Set_from (chunksReceived session)) (totalChunks session) 0 []"

function readChunks_loop ::
  "env \<Rightarrow> world \<Rightarrow> string \<Rightarrow> int \<Rightarrow> int \<Rightarrow> Buffer list \<Rightarrow> error + Buffer list" where
  "readChunks_loop e w sessionId limit i chunks =
     (if i < limit
      then (case readFile w (getChunkPath e sessionId i) of
              Inl err \<Rightarrow> Inl err
            | Inr chunkData \<Rightarrow> readChunks_loop e w sessionId limit (i + 1) (chunks @ [chunkData]))
      else Inr chunks)"
  by pat_completeness auto
termination
  by (relation "measure (\<lambda>(e, w, sessionId, limit, i, chunks). nat (limit - i))") auto

declare readChunks_loop.simps [simp del]

definition reassembleAndVerify ::
  "env \<Rightarrow> world \<Rightarrow> Date \<Rightarrow> string \<Rightarrow> (error + ReassembleResult) \<times> world" where
  "reassembleAndVerify e w now sessionId =
     (case findUnique (uploadSession w) sessionId of
        None \<Rightarrow> (Inl (SessionNotFoundError sessionId), w)
      | Some session \<Rightarrow>
          (let missing = getMissingChunks session in
           if length missing > 0 then (Inl (ChunksMissingError missing), w)
           else
             (case readChunks_loop e w sessionId (totalChunks session) 0 [] of
                Inl err \<Rightarrow> (Inl err, w)
              | Inr chunks \<Rightarrow>
                  (let completeData = concat chunks;
                       outputPath = getCompletePath e sessionId
                   in case writeFile w outputPath completeData of
                        Inl err \<Rightarrow> (Inl err, w)
                      | Inr w1 \<Rightarrow>
                          (let actualHash = hashBuffer e completeData;
                               verified = hashesMatch actualHash (finalHash session)
                           in if \<not> verified
                              then (Inl (FinalHashMismatchError (finalHash session) actualHash),
                                    w1)
                              else
                                (case prisma_update (uploadSession w1) sessionId
                                        (\<lambda>r. r\<lparr>completedAt := Some now\<rparr>) of
                                   None \<Rightarrow>
                                     (Inl (PrismaError ''Record to update not found''), w1)
                                 | Some (_, tbl) \<Rightarrow>
                                     (Inr \<lparr>filePath = outputPath, verified = True,
                                           hash = actualHash\<rparr>,
                                      w1\<lparr>uploadSession := tbl\<rparr>)))))))"

definition cleanupSessionFiles :: "env \<Rightarrow> world \<Rightarrow> string \<Rightarrow> world" where
  "cleanupSessionFiles e w sessionId = rm_rf w (getSessionDir e sessionId)"



section \<open>The upload routes\<close>

text \<open>
  The handlers of \<open>POST .../upload/start\<close> and \<open>GET .../upload/:sessionId/status\<close>. A
  reply with an error is its HTTP status and its error code. The two look-ups of the
  start handler in tables \<open>modpacks\<close> and \<open>modpack_versions\<close> are parameters.
\<close>

record UploadStartRequest =
  req_type :: string
  req_totalSize :: int
  req_totalChunks :: int
  req_chunkSize :: int
  req_finalHash :: string

record UploadStartResponse =
  start_sessionId :: string
  start_expiresAt :: Date

record UploadStatusResponse =
  status_sessionId :: string
  status_type :: string
  status_chunksReceived :: "int list"
  status_chunksMissing :: "int list"
  status_totalChunks :: int
  status_expiresAt :: Date

type_synonym reply_error = "nat \<times> string"

definition uploadStart ::
  "env \<Rightarrow> world \<Rightarrow> Date \<Rightarrow> string \<Rightarrow> (string \<Rightarrow> string option) \<Rightarrow>
   (string \<Rightarrow> string \<Rightarrow> string option) \<Rightarrow> string \<Rightarrow> string \<Rightarrow> string \<Rightarrow>
   UploadStartRequest \<Rightarrow> (reply_error + UploadStartResponse) \<times> world" where
  "uploadStart e w now newId findModpack findVersion authUserId slug version body =
     (if req_type body \<notin> set [''icons'', ''items''] then (Inl (400, ''INVALID_TYPE''), w)
      else if req_finalHash body = [] \<or> \<not> isValidHash (req_finalHash body)
      then (Inl (400, ''INVALID_HASH''), w)
      else if req_totalSize body \<le> 0 then (Inl (400, ''INVALID_SIZE''), w)
      else if req_totalChunks body \<le> 0 then (Inl (400, ''INVALID_CHUNKS''), w)
      else if req_chunkSize body \<le> 0 then (Inl (400, ''INVALID_CHUNK_SIZE''), w)
      else
        (case findModpack slug of
           None \<Rightarrow> (Inl (404, ''MODPACK_NOT_FOUND''), w)
         | Some modpackId \<Rightarrow>
             (case findVersion modpackId version of
                None \<Rightarrow> (Inl (404, ''VERSION_NOT_FOUND''), w)
              | Some versionId \<Rightarrow>
                  (case createUploadSession e w now newId
                          \<lparr>modpackVersionId = versionId,
                           userId = authUserId,
                           type' = req_type body,
                           totalSize = req_totalSize body,
                           totalChunks = req_totalChunks body,
                           chunkSize = req_chunkSize body,
                           finalHash = req_finalHash body\<rparr> of
                     (Inl err, w1) \<Rightarrow> (Inl (500, ''SESSION_CREATE_FAILED''), w1)
                   | (Inr session, w1) \<Rightarrow>
                       (Inr \<lparr>start_sessionId = id' session,
                             start_expiresAt = expiresAt session\<rparr>, w1)))))"

definition uploadStatus :: "world \<Rightarrow> string \<Rightarrow> reply_error + UploadStatusResponse" where
  "uploadStatus w sessionId =
     (case getSessionStatus w sessionId of
        None \<Rightarrow> Inl (404, ''SESSION_NOT_FOUND'')
      | Some session \<Rightarrow>
          (let chunksMissing = getMissingChunks session
           in Inr \<lparr>status_sessionId = id' session,
                    status_type = type' session,
                    status_chunksReceived = chunksReceived session,
                    status_chunksMissing = chunksMissing,
                    status_totalChunks = totalChunks session,
                    status_expiresAt = expiresAt session\<rparr>))"

section \<open>Calls in sequence and calls that overlap\<close>

text \<open>
  A client that uploads one chunk after the other: the calls of \<open>storeChunk\<close> run in
  the order of the list, each at its own time, and the first error ends the run.
\<close>

fun storeChunks ::
  "env \<Rightarrow> world \<Rightarrow> string \<Rightarrow> (Date \<times> int \<times> Buffer \<times> string) list \<Rightarrow> (error + unit) \<times> world" where
  "storeChunks e w sessionId [] = (Inr (), w)"
| "storeChunks e w sessionId ((now, chunkIndex, data, expectedHash) # rest) =
     (case storeChunk e w now sessionId chunkIndex data expectedHash of
        (Inl err, w1) \<Rightarrow> (Inl err, w1)
      | (Inr _, w1) \<Rightarrow> storeChunks e w1 sessionId rest)"

text \<open>
  \<open>storeChunk\<close> is an \<open>async\<close> function with three \<open>await\<close>s: \<open>findUnique\<close>,
  \<open>writeFile\<close> and \<open>update\<close>. Between two of them the code runs without interruption;
  at each of them another request may run. A call in flight is at one of the three
  \<open>await\<close>s, holding the values of its local variables, or has finished. One step of
  a call performs the operation it waits for and runs the code up to the next \<open>await\<close>.
\<close>

datatype storeChunk_call =
    AwaitFindUnique string int Buffer string
  | AwaitWriteFile UploadSession string int Buffer
  | AwaitUpdate UploadSession string "int list"
  | Finished "error + StoreChunkResult"

fun storeChunk_step :: "env \<Rightarrow> Date \<Rightarrow> storeChunk_call \<Rightarrow> world \<Rightarrow> storeChunk_call \<times> world" where
  "storeChunk_step e now (AwaitFindUnique sessionId chunkIndex data expectedHash) w =
     (case findUnique (uploadSession w) sessionId of
        None \<Rightarrow> (Finished (Inl (SessionNotFoundError sessionId)), w)
      | Some session \<Rightarrow>
          if expiresAt session < now then (Finished (Inl (SessionExpiredError sessionId)), w)
          else if chunkIndex < 0 \<or> chunkIndex \<ge> totalChunks session
          then (Finished (Inl (Error (''Invalid chunk index: '' @ toString chunkIndex @
                  '' (expected 0-'' @ toString (totalChunks session - 1) @ '')''))), w)
          else
            (let actualHash = hashBuffer e data in
             if \<not> hashesMatch actualHash expectedHash
             then (Finished (Inl (ChunkHashMismatchError expectedHash actualHash)), w)
             else (AwaitWriteFile session sessionId chunkIndex data, w)))"
| "storeChunk_step e now (AwaitWriteFile session sessionId chunkIndex data) w =
     (let chunkPath = getChunkPath e sessionId chunkIndex
      in case writeFile w chunkPath data of
           Inl err \<Rightarrow> (Finished (Inl err), w)
         | Inr w1 \<Rightarrow>
             (let currentChunks = Set_add (Set_from (chunksReceived session)) chunkIndex;
                  updatedChunks = sort currentChunks
              in (AwaitUpdate session sessionId updatedChunks, w1)))"
| "storeChunk_step e now (AwaitUpdate session sessionId updatedChunks) w =
     (case prisma_update (uploadSession w) sessionId
             (\<lambda>r. r\<lparr>chunksReceived := updatedChunks\<rparr>) of
        None \<Rightarrow> (Finished (Inl (PrismaError ''Record to update not found'')), w)
      | Some (updatedSession, tbl) \<Rightarrow>
          (Finished (Inr \<lparr>sc_verified = True,
                          sc_session = updatedSession,
                          sc_chunksReceived = int (length updatedChunks),
                          sc_chunksRemaining =
                            totalChunks session - int (length updatedChunks)\<rparr>),
           w\<lparr>uploadSession := tbl\<rparr>))"
| "storeChunk_step e now (Finished r) w = (Finished r, w)"

text \<open>
  Two calls in flight and a schedule: each entry says which of the two takes the next
  step (\<open>True\<close> the first, \<open>False\<close> the second).
\<close>

fun interleave ::
  "env \<Rightarrow> Date \<Rightarrow> bool list \<Rightarrow> storeChunk_call \<times> storeChunk_call \<times> world \<Rightarrow>
   storeChunk_call \<times> storeChunk_call \<times> world" where
  "interleave e now [] st = st"
| "interleave e now (True # sched) (c1, c2, w) =
     (case storeChunk_step e now c1 w of (c1', w') \<Rightarrow> interleave e now sched (c1', c2, w'))"
| "interleave e now (False # sched) (c1, c2, w) =
     (case storeChunk_step e now c2 w of (c2', w') \<Rightarrow> interleave e now sched (c1, c2', w'))"

section \<open>Auxiliary notions\<close>

text \<open>The number a string of decimal digits stands for.\<close>

definition dec_val :: "string \<Rightarrow> nat" where
  "dec_val s = foldl (\<lambda>a c. 10 * a + (of_char c - 48)) 0 s"

text \<open>
  A stand-in digest for running the service on concrete inputs: sixty-four copies of
  one hexadecimal digit, chosen by the length of the buffer. The theorems hold for
  every digest function; this one only instantiates them.
\<close>

definition demo_digest :: "Buffer \<Rightarrow> string" where
  "demo_digest b = replicate 64 (''0123456789abcdef'' ! (length b mod 16))"

definition demo_env :: env where
  "demo_env = \<lparr>sha256_hex = demo_digest, uploadDir = ''uploads''\<rparr>"

definition empty_world :: world where
  "empty_world = \<lparr>uploadSession = [], files = Map.empty, dirs = {}\<rparr>"

text \<open>The ten bytes of \<open>abcdefghij\<close> in three pieces of at most four bytes.\<close>

definition demo_pieces :: "Buffer list" where
  "demo_pieces = [[97, 98, 99, 100], [101, 102, 103, 104], [105, 106]]"

definition demo_params :: CreateSessionParams where
  "demo_params =
     \<lparr>modpackVersionId = ''v1'', userId = ''u1'', type' = ''items'',
      totalSize = 10, totalChunks = 3, chunkSize = 4,
      finalHash = hashBuffer demo_env (concat demo_pieces)\<rparr>"

text \<open>The session of \<open>demo_params\<close> once its three chunks are stored.\<close>

definition demo_session :: UploadSession where
  "demo_session =
     \<lparr>modpackVersionId = ''v1'', userId = ''u1'', type' = ''items'',
      totalSize = 10, totalChunks = 3, chunkSize = 4,
      finalHash = hashBuffer demo_env (concat demo_pieces),
      id' = ''s1'', chunksReceived = [0, 1, 2], expiresAt = 3600000, completedAt = None\<rparr>"

definition demo_world :: world where
  "demo_world =
     \<lparr>uploadSession = [demo_session],
      files = [getChunkPath demo_env ''s1'' 0 \<mapsto> [97, 98, 99, 100],
               getChunkPath demo_env ''s1'' 1 \<mapsto> [101, 102, 103, 104],
               getChunkPath demo_env ''s1'' 2 \<mapsto> [105, 106]],
      dirs = {p. prefix p (getSessionDir demo_env ''s1'')}\<rparr>"

text \<open>The same session with chunk 1 still missing.\<close>

definition demo_partial_session :: UploadSession where
  "demo_partial_session = demo_session\<lparr>chunksReceived := [0, 2]\<rparr>"

definition demo_partial_world :: world where
  "demo_partial_world =
     \<lparr>uploadSession = [demo_partial_session],
      files = [getChunkPath demo_env ''s1'' 0 \<mapsto> [97, 98, 99, 100],
               getChunkPath demo_env ''s1'' 2 \<mapsto> [105, 106]],
      dirs = {p. prefix p (getSessionDir demo_env ''s1'')}\<rparr>"

text \<open>The session with all chunks stored and a final hash that is not theirs.\<close>

definition demo_bad_session :: UploadSession where
  "demo_bad_session = demo_session\<lparr>finalHash := hashBuffer demo_env [1]\<rparr>"

definition demo_bad_world :: world where
  "demo_bad_world = demo_world\<lparr>uploadSession := [demo_bad_session]\<rparr>"

text \<open>A session of eight chunks with none stored yet.\<close>

definition demo_wide_session :: UploadSession where
  "demo_wide_session = demo_session\<lparr>totalChunks := 8, chunksReceived := []\<rparr>"

definition demo_wide_world :: world where
  "demo_wide_world =
     \<lparr>uploadSession = [demo_wide_session], files = Map.empty,
      dirs = {p. prefix p (getSessionDir demo_env ''s1'')}\<rparr>"

text \<open>A request body for the start route.\<close>

definition demo_request :: UploadStartRequest where
  "demo_request =
     \<lparr>req_type = ''items'', req_totalSize = 10, req_totalChunks = 3, req_chunkSize = 4,
      req_finalHash = hashBuffer demo_env (concat demo_pieces)\<rparr>"

text \<open>
  The state the complete route leaves: the upload is verified, then its files are
  cleaned up; the row stays, and its deadline has not passed.
\<close>

definition demo_cleaned_world :: world where
  "demo_cleaned_world =
     cleanupSessionFiles demo_env (snd (reassembleAndVerify demo_env demo_world 40 ''s1'')) ''s1''"

text \<open>A new session of two chunks for the three bytes of \<open>abc\<close>.\<close>

definition demo_pair_params :: CreateSessionParams where
  "demo_pair_params =
     \<lparr>modpackVersionId = ''v1'', userId = ''u1'', type' = ''items'',
      totalSize = 3, totalChunks = 2, chunkSize = 2,
      finalHash = hashBuffer demo_env [97, 98, 99]\<rparr>"

definition demo_pair_world :: world where
  "demo_pair_world = snd (createUploadSession demo_env empty_world 0 ''s2'' demo_pair_params)"

definition demo_pair_session :: UploadSession where
  "demo_pair_session =
     \<lparr>modpackVersionId = ''v1'', userId = ''u1'', type' = ''items'',
      totalSize = 3, totalChunks = 2, chunkSize = 2,
      finalHash = hashBuffer demo_env [97, 98, 99],
      id' = ''s2'', chunksReceived = [], expiresAt = 3600000, completedAt = None\<rparr>"


section \<open>Properties of the helpers\<close>

lemma xor_nat_eq_0_iff: "(a::nat) XOR b = 0 \<longleftrightarrow> a = b"
proof
  assume "a XOR b = 0"
  then have "(a XOR b) XOR b = 0 XOR b" by simp
  then show "a = b" by (simp add: xor.assoc)
qed simp

lemma hashesMatch_loop_zero:
  "hashesMatch_loop a b i r = 0 \<longleftrightarrow>
     r = 0 \<and> (\<forall>j \<in> {i..<length a}. charCodeAt a j = charCodeAt b j)"
proof (induction a b i r rule: hashesMatch_loop.induct)
  case (1 a b i r)
  show ?case
  proof (cases "i < length a")
    case True
    then have split: "{i..<length a} = insert i {i + 1..<length a}" by auto
    have "hashesMatch_loop a b i r =
        hashesMatch_loop a b (i + 1) (r OR (charCodeAt a i XOR charCodeAt b i))"
      using True by (subst hashesMatch_loop.simps) simp
    then show ?thesis
      using 1 [OF True] by (simp add: split or_eq_0_iff xor_nat_eq_0_iff)
  next
    case False
    then show ?thesis by (subst hashesMatch_loop.simps) auto
  qed
qed

lemma hashesMatch_iff: "hashesMatch a b \<longleftrightarrow> a = b"
proof
  assume "hashesMatch a b"
  then have len: "length a = length b"
    and eq: "\<forall>j \<in> {0..<length a}. charCodeAt a j = charCodeAt b j"
    by (auto simp: hashesMatch_def hashesMatch_loop_zero split: if_splits)
  from eq have "\<forall>j < length a. a ! j = b ! j"
    by (simp add: charCodeAt_def)
  with len show "a = b" by (simp add: list_eq_iff_nth_eq)
next
  assume "a = b"
  then show "hashesMatch a b"
    by (simp add: hashesMatch_def hashesMatch_loop_zero)
qed

lemma set_Set_from [simp]: "set (Set_from xs) = set xs"
  by (simp add: Set_from_def)

lemma Set_has_iff [simp]: "Set_has s x \<longleftrightarrow> x \<in> set s"
  by (simp add: Set_has_def)

lemma getMissingChunks_loop_eq:
  "getMissingChunks_loop rs n i m = m @ filter (\<lambda>k. k \<notin> set rs) [i..n - 1]"
proof (induction rs n i m rule: getMissingChunks_loop.induct)
  case (1 rs n i m)
  show ?case
  proof (cases "i < n")
    case True
    then have "[i..n - 1] = i # [i + 1..n - 1]" by (simp add: upto_rec1)
    with True 1 show ?thesis by (subst getMissingChunks_loop.simps) simp
  next
    case False
    then show ?thesis by (subst getMissingChunks_loop.simps) simp
  qed
qed

lemma getMissingChunks_eq:
  "getMissingChunks s = filter (\<lambda>k. k \<notin> set (chunksReceived s)) [0..totalChunks s - 1]"
  by (simp add: getMissingChunks_def getMissingChunks_loop_eq)

lemma digit_char_val: "d < 10 \<Longrightarrow> of_char (''0123456789'' ! d) - 48 = (d::nat)"
proof -
  assume "d < 10"
  then have "d \<in> {0, 1, 2, 3, 4, 5, 6, 7, 8, 9}" by auto
  then show ?thesis by auto
qed

lemma dec_val_append: "dec_val (s @ [c]) = 10 * dec_val s + (of_char c - 48)"
  by (simp add: dec_val_def)

lemma dec_val_toDigits: "dec_val (toDigits n) = n"
proof (induction n rule: toDigits.induct)
  case (1 n)
  show ?case
  proof (cases "n < 10")
    case True
    then show ?thesis
      by (subst toDigits.simps) (simp add: dec_val_def digit_char_val)
  next
    case False
    then have "toDigits n = toDigits (n div 10) @ [''0123456789'' ! (n mod 10)]"
      by (subst toDigits.simps) simp
    with 1 False show ?thesis
      by (simp add: dec_val_append digit_char_val)
  qed
qed

lemma dec_val_zeros: "dec_val (replicate k (CHR ''0'') @ s) = dec_val s"
proof -
  have "foldl (\<lambda>a c. 10 * a + (of_char c - 48)) 0 (replicate k (CHR ''0'')) = (0::nat)"
    by (induction k) simp_all
  then show ?thesis by (simp add: dec_val_def)
qed

lemma padded_index_inj:
  assumes "0 \<le> i" "0 \<le> j"
    and "padStart 6 (CHR ''0'') (toString i) = padStart 6 (CHR ''0'') (toString j)"
  shows "i = j"
proof -
  have "dec_val (padStart 6 (CHR ''0'') (toString i)) = nat i"
    using assms(1) by (simp add: padStart_def toString_def dec_val_zeros dec_val_toDigits)
  moreover have "dec_val (padStart 6 (CHR ''0'') (toString j)) = nat j"
    using assms(2) by (simp add: padStart_def toString_def dec_val_zeros dec_val_toDigits)
  ultimately show ?thesis using assms by simp
qed

lemma getChunkPath_inj:
  "0 \<le> i \<Longrightarrow> 0 \<le> j \<Longrightarrow> getChunkPath e sid i = getChunkPath e sid' j \<longleftrightarrow> sid = sid' \<and> i = j"
  by (auto simp: getChunkPath_def getSessionDir_def Let_def dest: padded_index_inj)

lemma getChunkPath_neq_complete [simp]:
  "getChunkPath e sid i \<noteq> getCompletePath e sid'"
  "getCompletePath e sid' \<noteq> getChunkPath e sid i"
  by (auto simp: getChunkPath_def getCompletePath_def getSessionDir_def Let_def)

lemma findUnique_map_update:
  assumes "\<And>x. id' (f x) = id' x"
  shows "findUnique (map (\<lambda>x. if id' x = sid then f x else x) tbl) sid' =
         map_option (\<lambda>r. if id' r = sid then f r else r) (findUnique tbl sid')"
  using assms by (induction tbl) (auto simp: findUnique_def)

lemma findUnique_id: "findUnique tbl sid = Some r \<Longrightarrow> id' r = sid"
  by (auto simp: findUnique_def dest: find_Some_iff[THEN iffD1])

lemma set_Set_add [simp]: "set (Set_add s x) = insert x (set s)"
  by (auto simp: Set_add_def)

lemma findUnique_append_fresh:
  "findUnique tbl (id' r) = None \<Longrightarrow> findUnique (tbl @ [r]) sid = (if sid = id' r then Some r else findUnique tbl sid)"
  by (induction tbl) (auto simp: findUnique_def)

lemma butlast_getChunkPath [simp]: "butlast (getChunkPath e sid i) = getSessionDir e sid"
  by (simp add: getChunkPath_def Let_def)

lemma butlast_getCompletePath [simp]: "butlast (getCompletePath e sid) = getSessionDir e sid"
  by (simp add: getCompletePath_def)

lemma storeChunk_ok:
  assumes "findUnique (uploadSession w) sid = Some s"
    and "\<not> expiresAt s < now" and "0 \<le> i" and "i < totalChunks s"
    and "hashesMatch (hashBuffer e d) h"
    and "getSessionDir e sid \<in> dirs w"
  shows "storeChunk e w now sid i d h =
     (Inr \<lparr>sc_verified = True,
           sc_session = s\<lparr>chunksReceived := sort (Set_add (Set_from (chunksReceived s)) i)\<rparr>,
           sc_chunksReceived = int (length (sort (Set_add (Set_from (chunksReceived s)) i))),
           sc_chunksRemaining =
             totalChunks s - int (length (sort (Set_add (Set_from (chunksReceived s)) i)))\<rparr>,
      w\<lparr>files := (files w)(getChunkPath e sid i \<mapsto> d),
        uploadSession :=
          map (\<lambda>x. if id' x = sid
                    then x\<lparr>chunksReceived := sort (Set_add (Set_from (chunksReceived s)) i)\<rparr>
                    else x) (uploadSession w)\<rparr>)"
  using assms by (simp add: storeChunk_def Let_def writeFile_def prisma_update_def)

lemma storeChunk_no_dir:
  assumes "findUnique (uploadSession w) sid = Some s"
    and "\<not> expiresAt s < now" and "0 \<le> i" and "i < totalChunks s"
    and "hashesMatch (hashBuffer e d) h"
    and "getSessionDir e sid \<notin> dirs w"
  shows "storeChunk e w now sid i d h = (Inl (ENOENT (getChunkPath e sid i)), w)"
  using assms by (simp add: storeChunk_def Let_def writeFile_def)

lemma storeChunk_rejected:
  assumes "findUnique (uploadSession w) sid = Some s"
    and "expiresAt s < now \<or> i < 0 \<or> totalChunks s \<le> i \<or> \<not> hashesMatch (hashBuffer e d) h"
  shows "snd (storeChunk e w now sid i d h) = w \<and> (\<exists>err. fst (storeChunk e w now sid i d h) = Inl err)"
  using assms by (auto simp: storeChunk_def Let_def)

lemma storeChunk_success:
  assumes "storeChunk e w now sid i d h = (Inr r, w')"
  shows "\<exists>s. findUnique (uploadSession w) sid = Some s
     \<and> \<not> expiresAt s < now \<and> 0 \<le> i \<and> i < totalChunks s
     \<and> hashesMatch (hashBuffer e d) h \<and> getSessionDir e sid \<in> dirs w
     \<and> w' = w\<lparr>files := (files w)(getChunkPath e sid i \<mapsto> d),
          uploadSession :=
            map (\<lambda>x. if id' x = sid
                    then x\<lparr>chunksReceived := sort (Set_add (Set_from (chunksReceived s)) i)\<rparr>
                    else x) (uploadSession w)\<rparr>"
proof (cases "findUnique (uploadSession w) sid")
  case None
  with assms show ?thesis by (simp add: storeChunk_def)
next
  case (Some s)
  show ?thesis
  proof (cases "expiresAt s < now \<or> i < 0 \<or> totalChunks s \<le> i \<or> \<not> hashesMatch (hashBuffer e d) h")
    case True
    from storeChunk_rejected [OF Some True] assms show ?thesis by auto
  next
    case ok: False
    show ?thesis
    proof (cases "getSessionDir e sid \<in> dirs w")
      case True
      with ok Some storeChunk_ok [of w sid s now i e d h] assms show ?thesis by auto
    next
      case False
      with ok Some storeChunk_no_dir [of w sid s now i e d h] assms show ?thesis by auto
    qed
  qed
qed

lemma storeChunk_failure:
  assumes "storeChunk e w now sid i d h = (Inl err, w')"
  shows "w' = w"
proof (cases "findUnique (uploadSession w) sid")
  case None
  with assms show ?thesis by (simp add: storeChunk_def)
next
  case (Some s)
  show ?thesis
  proof (cases "expiresAt s < now \<or> i < 0 \<or> totalChunks s \<le> i \<or> \<not> hashesMatch (hashBuffer e d) h")
    case True
    from storeChunk_rejected [OF Some True] assms show ?thesis by auto
  next
    case ok: False
    show ?thesis
    proof (cases "getSessionDir e sid \<in> dirs w")
      case True
      with ok Some storeChunk_ok [of w sid s now i e d h] assms show ?thesis by auto
    next
      case False
      with ok Some storeChunk_no_dir [of w sid s now i e d h] assms show ?thesis by auto
    qed
  qed
qed

lemma storeChunk_table:
  assumes "storeChunk e w now sid i d h = (r, w')"
  shows "uploadSession w' = uploadSession w \<or>
     (\<exists>cr. uploadSession w' =
        map (\<lambda>x. if id' x = sid then x\<lparr>chunksReceived := cr\<rparr> else x) (uploadSession w))"
proof (cases r)
  case (Inl err)
  with assms storeChunk_failure [of e w now sid i d h err w'] show ?thesis by simp
next
  case (Inr res)
  with assms storeChunk_success [of e w now sid i d h res w'] show ?thesis by auto
qed

lemma storeChunk_completedAt:
  assumes "storeChunk e w now sid i d h = (r, w')"
  shows "map_option completedAt (findUnique (uploadSession w') sid') =
         map_option completedAt (findUnique (uploadSession w) sid')"
  using storeChunk_table [OF assms]
  by (cases "findUnique (uploadSession w) sid'") (auto simp: findUnique_map_update)

lemma storeChunk_expiresAt:
  assumes "storeChunk e w now sid i d h = (r, w')"
  shows "map_option expiresAt (findUnique (uploadSession w') sid') =
         map_option expiresAt (findUnique (uploadSession w) sid')"
  using storeChunk_table [OF assms]
  by (cases "findUnique (uploadSession w) sid'") (auto simp: findUnique_map_update)

lemma storeChunk_ok_find:
  assumes "findUnique (uploadSession w) sid = Some s"
    and "\<not> expiresAt s < now" and "0 \<le> i" and "i < totalChunks s"
    and "hashesMatch (hashBuffer e d) h"
    and "getSessionDir e sid \<in> dirs w"
  shows "\<exists>r w'. storeChunk e w now sid i d h = (Inr r, w')
       \<and> findUnique (uploadSession w') sid =
            Some (s\<lparr>chunksReceived := sort (Set_add (Set_from (chunksReceived s)) i)\<rparr>)
       \<and> files w' = (files w)(getChunkPath e sid i \<mapsto> d)
       \<and> dirs w' = dirs w"
proof -
  have "id' s = sid" using assms(1) by (rule findUnique_id)
  then show ?thesis
    using assms by (simp add: storeChunk_ok findUnique_map_update)
qed

lemma storeChunk_success_find:
  assumes "storeChunk e w now sid i d h = (Inr r, w')"
  shows "\<exists>s. findUnique (uploadSession w) sid = Some s
       \<and> findUnique (uploadSession w') sid =
            Some (s\<lparr>chunksReceived := sort (Set_add (Set_from (chunksReceived s)) i)\<rparr>)"
proof -
  from storeChunk_success [OF assms] obtain s where
    s: "findUnique (uploadSession w) sid = Some s"
    and w': "w' = w\<lparr>files := (files w)(getChunkPath e sid i \<mapsto> d),
          uploadSession :=
            map (\<lambda>x. if id' x = sid
                    then x\<lparr>chunksReceived := sort (Set_add (Set_from (chunksReceived s)) i)\<rparr>
                    else x) (uploadSession w)\<rparr>"
    by blast
  have "id' s = sid" using s by (rule findUnique_id)
  with s w' show ?thesis by (simp add: findUnique_map_update)
qed
lemma readChunks_loop_all:
  assumes "\<forall>k. i \<le> k \<and> k < n \<longrightarrow> files w (getChunkPath e sid k) = Some (f k)"
  shows "readChunks_loop e w sid n i acc = Inr (acc @ map f [i..n - 1])"
  using assms
proof (induction e w sid n i acc rule: readChunks_loop.induct)
  case (1 e w sid n i acc)
  show ?case
  proof (cases "i < n")
    case True
    then have up: "[i..n - 1] = i # [i + 1..n - 1]" by (simp add: upto_rec1)
    have here: "readFile w (getChunkPath e sid i) = Inr (f i)"
      using True "1.prems" by (simp add: readFile_def)
    have "readChunks_loop e w sid n (i + 1) (acc @ [f i]) = Inr ((acc @ [f i]) @ map f [i + 1..n - 1])"
      using True here "1.prems" by (intro "1.IH") auto
    with True here up show ?thesis
      by (subst readChunks_loop.simps) simp
  next
    case False
    then show ?thesis by (subst readChunks_loop.simps) simp
  qed
qed

lemma map_nth_upto: "map (\<lambda>k. xs ! nat k) [0..int (length xs) - 1] = xs"
  by (rule nth_equalityI) (simp_all add: nth_upto)

lemma readChunks_loop_error:
  "readChunks_loop e w sid n i acc = Inl err \<Longrightarrow> \<exists>p. err = ENOENT p"
proof (induction e w sid n i acc rule: readChunks_loop.induct)
  case (1 e w sid n i acc)
  show ?case
  proof (cases "i < n")
    case True
    show ?thesis
    proof (cases "files w (getChunkPath e sid i)")
      case None
      with True "1.prems" show ?thesis
        by (subst (asm) readChunks_loop.simps) (auto simp: readFile_def)
    next
      case (Some d)
      with True have "readFile w (getChunkPath e sid i) = Inr d" by (simp add: readFile_def)
      moreover from this True "1.prems"
      have "readChunks_loop e w sid n (i + 1) (acc @ [d]) = Inl err"
        by (subst (asm) readChunks_loop.simps) simp
      ultimately show ?thesis using True "1.IH" by blast
    qed
  next
    case False
    with "1.prems" show ?thesis by (subst (asm) readChunks_loop.simps) simp
  qed
qed

lemma readChunks_loop_cong:
  assumes "\<forall>k. files w' (getChunkPath e sid k) = files w (getChunkPath e sid k)"
  shows "readChunks_loop e w' sid n i acc = readChunks_loop e w sid n i acc"
  using assms
proof (induction e w sid n i acc rule: readChunks_loop.induct)
  case (1 e w sid n i acc)
  have rd: "readFile w' (getChunkPath e sid i) = readFile w (getChunkPath e sid i)"
    using "1.prems" by (simp add: readFile_def)
  show ?case
  proof (cases "i < n")
    case True
    show ?thesis
    proof (cases "readFile w (getChunkPath e sid i)")
      case (Inl err)
      with True rd show ?thesis
        by (subst readChunks_loop.simps, subst (2) readChunks_loop.simps) simp
    next
      case (Inr d)
      with True "1.IH" [OF True Inr "1.prems"] rd show ?thesis
        by (subst readChunks_loop.simps, subst (2) readChunks_loop.simps) simp
    qed
  next
    case False
    then show ?thesis
      by (subst readChunks_loop.simps, subst (2) readChunks_loop.simps) simp
  qed
qed

lemma getMissingChunks_completedAt [simp]:
  "getMissingChunks (s\<lparr>completedAt := c\<rparr>) = getMissingChunks s"
  by (simp add: getMissingChunks_def)

lemma getMissingChunks_empty_iff:
  "getMissingChunks s = [] \<longleftrightarrow> {0..<totalChunks s} \<subseteq> set (chunksReceived s)"
  by (auto simp: getMissingChunks_eq filter_empty_conv)

lemma getMissingChunks_sorted: "sorted (getMissingChunks s) \<and> distinct (getMissingChunks s)"
  by (simp add: getMissingChunks_eq sorted_wrt_filter)

lemma getMissingChunks_set:
  "set (getMissingChunks s) = {0..<totalChunks s} - set (chunksReceived s)"
  by (auto simp: getMissingChunks_eq)


lemma distinct_Set_add: "distinct (Set_add (Set_from xs) x)"
  by (simp add: Set_add_def Set_from_def)

lemma reassemble_missing:
  assumes "findUnique (uploadSession w) sid = Some s"
    and "getMissingChunks s \<noteq> []"
  shows "reassembleAndVerify e w now sid = (Inl (ChunksMissingError (getMissingChunks s)), w)"
  using assms by (simp add: reassembleAndVerify_def Let_def)

lemma reassemble_no_dir:
  assumes "findUnique (uploadSession w) sid = Some s"
    and "getMissingChunks s = []"
    and "readChunks_loop e w sid (totalChunks s) 0 [] = Inr chunks"
    and "getSessionDir e sid \<notin> dirs w"
  shows "reassembleAndVerify e w now sid = (Inl (ENOENT (getCompletePath e sid)), w)"
  using assms by (simp add: reassembleAndVerify_def Let_def writeFile_def)

lemma reassemble_ok:
  assumes "findUnique (uploadSession w) sid = Some s"
    and "getMissingChunks s = []"
    and "readChunks_loop e w sid (totalChunks s) 0 [] = Inr chunks"
    and "hashesMatch (hashBuffer e (concat chunks)) (finalHash s)"
    and "getSessionDir e sid \<in> dirs w"
  shows "reassembleAndVerify e w now sid =
     (Inr \<lparr>filePath = getCompletePath e sid, verified = True, hash = hashBuffer e (concat chunks)\<rparr>,
      w\<lparr>files := (files w)(getCompletePath e sid \<mapsto> concat chunks),
        uploadSession :=
          map (\<lambda>x. if id' x = sid then x\<lparr>completedAt := Some now\<rparr> else x) (uploadSession w)\<rparr>)"
  using assms
  by (simp add: reassembleAndVerify_def Let_def writeFile_def prisma_update_def)

lemma reassemble_mismatch:
  assumes "findUnique (uploadSession w) sid = Some s"
    and "getMissingChunks s = []"
    and "readChunks_loop e w sid (totalChunks s) 0 [] = Inr chunks"
    and "\<not> hashesMatch (hashBuffer e (concat chunks)) (finalHash s)"
    and "getSessionDir e sid \<in> dirs w"
  shows "reassembleAndVerify e w now sid =
     (Inl (FinalHashMismatchError (finalHash s) (hashBuffer e (concat chunks))),
      w\<lparr>files := (files w)(getCompletePath e sid \<mapsto> concat chunks)\<rparr>)"
  using assms
  by (simp add: reassembleAndVerify_def Let_def writeFile_def)

lemma reassemble_cases:
  "(findUnique (uploadSession w) sid = None \<and>
      reassembleAndVerify e w now sid = (Inl (SessionNotFoundError sid), w))
   \<or> (\<exists>s. findUnique (uploadSession w) sid = Some s \<and> getMissingChunks s \<noteq> [] \<and>
      reassembleAndVerify e w now sid = (Inl (ChunksMissingError (getMissingChunks s)), w))
   \<or> (\<exists>s p. findUnique (uploadSession w) sid = Some s \<and> getMissingChunks s = [] \<and>
      readChunks_loop e w sid (totalChunks s) 0 [] = Inl (ENOENT p) \<and>
      reassembleAndVerify e w now sid = (Inl (ENOENT p), w))
   \<or> (\<exists>s chunks. findUnique (uploadSession w) sid = Some s \<and> getMissingChunks s = [] \<and>
      readChunks_loop e w sid (totalChunks s) 0 [] = Inr chunks \<and>
      getSessionDir e sid \<notin> dirs w \<and>
      reassembleAndVerify e w now sid = (Inl (ENOENT (getCompletePath e sid)), w))
   \<or> (\<exists>s chunks. findUnique (uploadSession w) sid = Some s \<and> getMissingChunks s = [] \<and>
      readChunks_loop e w sid (totalChunks s) 0 [] = Inr chunks \<and>
      getSessionDir e sid \<in> dirs w \<and>
      \<not> hashesMatch (hashBuffer e (concat chunks)) (finalHash s) \<and>
      reassembleAndVerify e w now sid =
        (Inl (FinalHashMismatchError (finalHash s) (hashBuffer e (concat chunks))),
         w\<lparr>files := (files w)(getCompletePath e sid \<mapsto> concat chunks)\<rparr>))
   \<or> (\<exists>s chunks. findUnique (uploadSession w) sid = Some s \<and> getMissingChunks s = [] \<and>
      readChunks_loop e w sid (totalChunks s) 0 [] = Inr chunks \<and>
      getSessionDir e sid \<in> dirs w \<and>
      hashesMatch (hashBuffer e (concat chunks)) (finalHash s) \<and>
      reassembleAndVerify e w now sid =
        (Inr \<lparr>filePath = getCompletePath e sid, verified = True,
              hash = hashBuffer e (concat chunks)\<rparr>,
         w\<lparr>files := (files w)(getCompletePath e sid \<mapsto> concat chunks),
           uploadSession :=
             map (\<lambda>x. if id' x = sid then x\<lparr>completedAt := Some now\<rparr> else x)
               (uploadSession w)\<rparr>))"
proof (cases "findUnique (uploadSession w) sid")
  case None
  then show ?thesis by (simp add: reassembleAndVerify_def)
next
  case (Some s)
  show ?thesis
  proof (cases "getMissingChunks s = []")
    case False
    with Some reassemble_missing [OF Some False] show ?thesis by simp
  next
    case noMissing: True
    show ?thesis
    proof (cases "readChunks_loop e w sid (totalChunks s) 0 []")
      case (Inl err)
      then obtain p where "err = ENOENT p" using readChunks_loop_error by blast
      with Some noMissing Inl show ?thesis
        by (simp add: reassembleAndVerify_def Let_def)
    next
      case (Inr chunks)
      show ?thesis
      proof (cases "getSessionDir e sid \<in> dirs w")
        case False
        with Some noMissing Inr reassemble_no_dir [OF Some noMissing Inr False] show ?thesis
          by simp
      next
        case dir: True
        show ?thesis
        proof (cases "hashesMatch (hashBuffer e (concat chunks)) (finalHash s)")
          case True
          with Some noMissing Inr dir reassemble_ok [OF Some noMissing Inr True dir]
          show ?thesis by simp
        next
          case False
          with Some noMissing Inr dir reassemble_mismatch [OF Some noMissing Inr False dir]
          show ?thesis by simp
        qed
      qed
    qed
  qed
qed


lemma reassemble_failure_table:
  assumes "reassembleAndVerify e v t sid = (Inl err, v')"
  shows "uploadSession v' = uploadSession v"
  using reassemble_cases [of v sid e t] assms by auto

lemma reassemble_success:
  assumes "reassembleAndVerify e w now sid = (Inr res, w')"
  shows "\<exists>s chunks. findUnique (uploadSession w) sid = Some s \<and> getMissingChunks s = [] \<and>
      readChunks_loop e w sid (totalChunks s) 0 [] = Inr chunks \<and>
      getSessionDir e sid \<in> dirs w \<and>
      hashesMatch (hashBuffer e (concat chunks)) (finalHash s) \<and>
      res = \<lparr>filePath = getCompletePath e sid, verified = True,
              hash = hashBuffer e (concat chunks)\<rparr> \<and>
      w' = w\<lparr>files := (files w)(getCompletePath e sid \<mapsto> concat chunks),
           uploadSession :=
             map (\<lambda>x. if id' x = sid then x\<lparr>completedAt := Some now\<rparr> else x)
               (uploadSession w)\<rparr>"
  using reassemble_cases [of w sid e now] assms by auto

lemma reassemble_gate:
  assumes run: "reassembleAndVerify e w now sid = (r, w')"
    and before: "findUnique (uploadSession w) sid' = Some s"
    and after: "findUnique (uploadSession w') sid' = Some s'"
    and changed: "completedAt s' \<noteq> completedAt s"
  shows "sid' = sid \<and> getMissingChunks s = [] \<and>
     (\<exists>chunks. readChunks_loop e w sid (totalChunks s) 0 [] = Inr chunks
        \<and> hashBuffer e (concat chunks) = finalHash s
        \<and> files w' (getCompletePath e sid) = Some (concat chunks)
        \<and> r = Inr \<lparr>filePath = getCompletePath e sid, verified = True, hash = finalHash s\<rparr>
        \<and> completedAt s' = Some now)"
proof (cases r)
  case (Inl err)
  with run have "uploadSession w' = uploadSession w" by (simp add: reassemble_failure_table)
  with before after changed show ?thesis by simp
next
  case (Inr res)
  with run reassemble_success [of e w now sid res w']
  obtain s0 chunks where find: "findUnique (uploadSession w) sid = Some s0"
    and miss: "getMissingChunks s0 = []"
    and rd: "readChunks_loop e w sid (totalChunks s0) 0 [] = Inr chunks"
    and hm: "hashesMatch (hashBuffer e (concat chunks)) (finalHash s0)"
    and res: "res = \<lparr>filePath = getCompletePath e sid, verified = True,
              hash = hashBuffer e (concat chunks)\<rparr>"
    and w': "w' = w\<lparr>files := (files w)(getCompletePath e sid \<mapsto> concat chunks),
           uploadSession :=
             map (\<lambda>x. if id' x = sid then x\<lparr>completedAt := Some now\<rparr> else x)
               (uploadSession w)\<rparr>"
    by blast
  from after w' before have s': "s' = (if id' s = sid then s\<lparr>completedAt := Some now\<rparr> else s)"
    by (simp add: findUnique_map_update)
  with changed have "id' s = sid" by (auto split: if_splits)
  moreover have "id' s = sid'" using before by (rule findUnique_id)
  ultimately have same: "sid' = sid" by simp
  with before find have "s0 = s" by simp
  with hm res w' s' same \<open>id' s = sid\<close> miss rd Inr show ?thesis
    by (simp add: hashesMatch_iff)
qed

lemma reassemble_again:
  assumes "reassembleAndVerify e v t1 sid = (Inr res, v1)"
  shows "\<exists>v2. reassembleAndVerify e v1 t2 sid = (Inr res, v2)
     \<and> map_option completedAt (findUnique (uploadSession v1) sid) = Some (Some t1)
     \<and> map_option completedAt (findUnique (uploadSession v2) sid) = Some (Some t2)"
proof -
  from reassemble_success [OF assms]
  obtain s chunks where find: "findUnique (uploadSession v) sid = Some s"
    and miss: "getMissingChunks s = []"
    and rd: "readChunks_loop e v sid (totalChunks s) 0 [] = Inr chunks"
    and dir: "getSessionDir e sid \<in> dirs v"
    and hm: "hashesMatch (hashBuffer e (concat chunks)) (finalHash s)"
    and res: "res = \<lparr>filePath = getCompletePath e sid, verified = True,
              hash = hashBuffer e (concat chunks)\<rparr>"
    and v1: "v1 = v\<lparr>files := (files v)(getCompletePath e sid \<mapsto> concat chunks),
           uploadSession :=
             map (\<lambda>x. if id' x = sid then x\<lparr>completedAt := Some t1\<rparr> else x)
               (uploadSession v)\<rparr>"
    by blast
  have ids: "id' s = sid" using find by (rule findUnique_id)
  let ?s1 = "s\<lparr>completedAt := Some t1\<rparr>"
  have find1: "findUnique (uploadSession v1) sid = Some ?s1"
    using find ids v1 by (simp add: findUnique_map_update)
  have miss1: "getMissingChunks ?s1 = []" using miss by simp
  have "\<forall>k. files v1 (getChunkPath e sid k) = files v (getChunkPath e sid k)"
    using v1 by simp
  then have "readChunks_loop e v1 sid (totalChunks ?s1) 0 [] =
      readChunks_loop e v sid (totalChunks ?s1) 0 []"
    by (rule readChunks_loop_cong)
  then have rd1: "readChunks_loop e v1 sid (totalChunks ?s1) 0 [] = Inr chunks"
    using rd by simp
  have hm1: "hashesMatch (hashBuffer e (concat chunks)) (finalHash ?s1)"
    using hm by simp
  have dir1: "getSessionDir e sid \<in> dirs v1" using dir v1 by simp
  note again = reassemble_ok [OF find1 miss1 rd1 hm1 dir1, of t2]
  let ?v2 = "v1\<lparr>files := (files v1)(getCompletePath e sid \<mapsto> concat chunks),
        uploadSession :=
          map (\<lambda>x. if id' x = sid then x\<lparr>completedAt := Some t2\<rparr> else x) (uploadSession v1)\<rparr>"
  have "map_option completedAt (findUnique (uploadSession ?v2) sid) = Some (Some t2)"
    using find1 ids by (simp add: findUnique_map_update)
  with again res find1 show ?thesis by simp
qed
lemma createUploadSession_ok:
  assumes "findUnique (uploadSession w) newId = None" and "isValidHash (finalHash params)"
    and "isInt32 (totalSize params)" and "isInt32 (totalChunks params)"
    and "isInt32 (chunkSize params)"
  shows "createUploadSession e w now newId params =
     (Inr \<lparr>modpackVersionId = modpackVersionId params, userId = userId params,
            type' = type' params, totalSize = totalSize params,
            totalChunks = totalChunks params, chunkSize = chunkSize params,
            finalHash = finalHash params, id' = newId, chunksReceived = [],
            expiresAt = now + 3600000, completedAt = None\<rparr>,
      w\<lparr>uploadSession := uploadSession w @
           [\<lparr>modpackVersionId = modpackVersionId params, userId = userId params,
             type' = type' params, totalSize = totalSize params,
             totalChunks = totalChunks params, chunkSize = chunkSize params,
             finalHash = finalHash params, id' = newId, chunksReceived = [],
             expiresAt = now + 3600000, completedAt = None\<rparr>],
        dirs := dirs w \<union> {p. prefix p (getSessionDir e newId)}\<rparr>)"
  using assms
  by (simp add: createUploadSession_def prisma_create_def SESSION_EXPIRY_HOURS_def Let_def
      mkdir_def)

lemma createUploadSession_out_of_range:
  assumes "isValidHash (finalHash params)"
    and "\<not> (isInt32 (totalSize params) \<and> isInt32 (totalChunks params) \<and>
            isInt32 (chunkSize params))"
  shows "createUploadSession e w now newId params =
           (Inl (PrismaError ''Value out of range for the type''), w)"
  using assms by (auto simp: createUploadSession_def prisma_create_def Let_def)

lemma createUploadSession_success:
  assumes "createUploadSession e w now newId params = (Inr s, w')"
  shows "findUnique (uploadSession w) newId = None \<and> isValidHash (finalHash params)
     \<and> isInt32 (totalSize params) \<and> isInt32 (totalChunks params) \<and> isInt32 (chunkSize params)"
  using assms
  by (auto simp: createUploadSession_def Let_def prisma_create_def
      split: if_splits option.splits)

lemma createUploadSession_pending:
  assumes "createUploadSession e w now newId params = (Inr s, w')"
  shows "completedAt s = None \<and> chunksReceived s = [] \<and> id' s = newId
     \<and> expiresAt s = now + 3600000
     \<and> totalSize s = totalSize params \<and> totalChunks s = totalChunks params
     \<and> chunkSize s = chunkSize params \<and> finalHash s = finalHash params
     \<and> findUnique (uploadSession w') newId = Some s
     \<and> getSessionDir e newId \<in> dirs w'"
proof -
  note ok = createUploadSession_success [OF assms]
  from ok have fresh: "findUnique (uploadSession w) newId = None" by simp
  from createUploadSession_ok [of w newId params e now] ok assms
  show ?thesis using fresh by (auto simp: findUnique_append_fresh)
qed

lemma storeChunks_ok:
  assumes "findUnique (uploadSession w) sid = Some s"
    and "getSessionDir e sid \<in> dirs w"
    and "\<forall>(t, i, d, h) \<in> set calls.
           \<not> expiresAt s < t \<and> 0 \<le> i \<and> i < totalChunks s \<and> d = g i \<and> h = hashBuffer e d"
  shows "\<exists>w' cr. storeChunks e w sid calls = (Inr (), w')
       \<and> findUnique (uploadSession w') sid = Some (s\<lparr>chunksReceived := cr\<rparr>)
       \<and> set cr = set (chunksReceived s) \<union> (\<lambda>(t, i, d, h). i) ` set calls
       \<and> (\<forall>k. 0 \<le> k \<longrightarrow> files w' (getChunkPath e sid k) =
              (if k \<in> (\<lambda>(t, i, d, h). i) ` set calls then Some (g k)
               else files w (getChunkPath e sid k)))
       \<and> files w' (getCompletePath e sid) = files w (getCompletePath e sid)
       \<and> dirs w' = dirs w"
  using assms
proof (induction calls arbitrary: w s)
  case Nil
  have "s = s\<lparr>chunksReceived := chunksReceived s\<rparr>" by simp
  with Nil show ?case by (intro exI [of _ w] exI [of _ "chunksReceived s"]) simp
next
  case (Cons c calls)
  obtain t i d h where c: "c = (t, i, d, h)" by (cases c) auto
  from Cons.prems(3) c have here: "\<not> expiresAt s < t" "0 \<le> i" "i < totalChunks s" "d = g i"
    "hashesMatch (hashBuffer e d) h"
    by (auto simp: hashesMatch_iff)
  let ?s1 = "s\<lparr>chunksReceived := sort (Set_add (Set_from (chunksReceived s)) i)\<rparr>"
  from storeChunk_ok_find [OF Cons.prems(1) here(1,2,3,5) Cons.prems(2)]
  obtain r w1 where step: "storeChunk e w t sid i d h = (Inr r, w1)"
    and find1: "findUnique (uploadSession w1) sid = Some ?s1"
    and files1: "files w1 = (files w)(getChunkPath e sid i \<mapsto> d)"
    and dirs1: "dirs w1 = dirs w"
    by blast
  have dir1: "getSessionDir e sid \<in> dirs w1" using dirs1 Cons.prems(2) by simp
  have rest: "\<forall>(t, i, d, h) \<in> set calls.
           \<not> expiresAt ?s1 < t \<and> 0 \<le> i \<and> i < totalChunks ?s1 \<and> d = g i \<and> h = hashBuffer e d"
    using Cons.prems(3) by auto
  from Cons.IH [OF find1 dir1 rest]
  obtain w' cr where run: "storeChunks e w1 sid calls = (Inr (), w')"
    and find': "findUnique (uploadSession w') sid = Some (?s1\<lparr>chunksReceived := cr\<rparr>)"
    and cr: "set cr = set (chunksReceived ?s1) \<union> (\<lambda>(t, i, d, h). i) ` set calls"
    and fs: "\<forall>k. 0 \<le> k \<longrightarrow> files w' (getChunkPath e sid k) =
              (if k \<in> (\<lambda>(t, i, d, h). i) ` set calls then Some (g k)
               else files w1 (getChunkPath e sid k))"
    and comp: "files w' (getCompletePath e sid) = files w1 (getCompletePath e sid)"
    and dirs': "dirs w' = dirs w1"
    by blast
  have "storeChunks e w sid (c # calls) = (Inr (), w')"
    using step run c by simp
  moreover have "findUnique (uploadSession w') sid = Some (s\<lparr>chunksReceived := cr\<rparr>)"
    using find' by simp
  moreover have "set cr = set (chunksReceived s) \<union> (\<lambda>(t, i, d, h). i) ` set (c # calls)"
    using cr c by auto
  moreover have "\<forall>k. 0 \<le> k \<longrightarrow> files w' (getChunkPath e sid k) =
              (if k \<in> (\<lambda>(t, i, d, h). i) ` set (c # calls) then Some (g k)
               else files w (getChunkPath e sid k))"
    using fs files1 c here(2,4) by (auto simp: getChunkPath_inj)
  moreover have "files w' (getCompletePath e sid) = files w (getCompletePath e sid)"
    using comp files1 by simp
  moreover have "dirs w' = dirs w" using dirs' dirs1 by simp
  ultimately show ?case by blast
qed

lemma storeChunks_success:
  assumes "storeChunks e w sid calls = (Inr (), w')"
    and "findUnique (uploadSession w) sid = Some s"
  shows "\<exists>cr. findUnique (uploadSession w') sid = Some (s\<lparr>chunksReceived := cr\<rparr>)
       \<and> set cr = set (chunksReceived s) \<union> (\<lambda>(t, i, d, h). i) ` set calls"
  using assms
proof (induction calls arbitrary: w s)
  case Nil
  have "s = s\<lparr>chunksReceived := chunksReceived s\<rparr>" by simp
  with Nil show ?case by (intro exI [of _ "chunksReceived s"]) simp
next
  case (Cons c calls)
  obtain t i d h where c: "c = (t, i, d, h)" by (cases c) auto
  obtain r1 w1 where step: "storeChunk e w t sid i d h = (r1, w1)" by (cases "storeChunk e w t sid i d h")
  with Cons.prems(1) c obtain res where r1: "r1 = Inr res"
    by (cases r1) auto
  with Cons.prems(1) c step have run: "storeChunks e w1 sid calls = (Inr (), w')" by simp
  let ?s1 = "s\<lparr>chunksReceived := sort (Set_add (Set_from (chunksReceived s)) i)\<rparr>"
  from storeChunk_success_find [of e w t sid i d h res w1] step r1 Cons.prems(2)
  have find1: "findUnique (uploadSession w1) sid = Some ?s1" by auto
  from Cons.IH [OF run find1]
  obtain cr where f: "findUnique (uploadSession w') sid = Some (?s1\<lparr>chunksReceived := cr\<rparr>)"
    and cr: "set cr = set (chunksReceived ?s1) \<union> (\<lambda>(t, i, d, h). i) ` set calls"
    by blast
  from f have "findUnique (uploadSession w') sid = Some (s\<lparr>chunksReceived := cr\<rparr>)"
    by simp
  moreover from cr c
  have "set cr = set (chunksReceived s) \<union> (\<lambda>(t, i, d, h). i) ` set (c # calls)"
    by auto
  ultimately show ?case by blast
qed

lemma storeChunks_expiresAt:
  assumes "storeChunks e w sid calls = (r, w')"
  shows "map_option expiresAt (findUnique (uploadSession w') sid') =
         map_option expiresAt (findUnique (uploadSession w) sid')"
  using assms
proof (induction calls arbitrary: w)
  case Nil
  then show ?case by simp
next
  case (Cons c calls)
  obtain t i d h where c: "c = (t, i, d, h)" by (cases c) auto
  obtain r1 w1 where step: "storeChunk e w t sid i d h = (r1, w1)" by (cases "storeChunk e w t sid i d h")
  note keep = storeChunk_expiresAt [OF step, of sid']
  show ?case
  proof (cases r1)
    case (Inl err)
    with Cons.prems c step have "w' = w1" by simp
    with keep show ?thesis by simp
  next
    case (Inr res)
    with Cons.prems c step have "storeChunks e w1 sid calls = (r, w')" by simp
    from Cons.IH [OF this] keep show ?thesis by simp
  qed
qed

lemma roundtrip_core:
  fixes pieces :: "Buffer list" and ups :: "(Date \<times> nat) list"
  assumes created: "createUploadSession e w0 t0 newId params = (Inr s, w1)"
    and fh: "finalHash params = hashBuffer e (concat pieces)"
    and tc: "totalChunks params = int (length pieces)"
    and order: "snd ` set ups = {0..<length pieces}"
    and times: "\<forall>(t, k) \<in> set ups. t \<le> t0 + 3600000"
  shows "\<exists>w2 w3.
      storeChunks e w1 newId
         (map (\<lambda>(t, k). (t, int k, pieces ! k, hashBuffer e (pieces ! k))) ups) = (Inr (), w2)
    \<and> reassembleAndVerify e w2 t newId =
         (Inr \<lparr>filePath = getCompletePath e newId, verified = True,
               hash = hashBuffer e (concat pieces)\<rparr>, w3)
    \<and> files w3 (getCompletePath e newId) = Some (concat pieces)
    \<and> map_option completedAt (findUnique (uploadSession w3) newId) = Some (Some t)"
proof -
  let ?calls = "map (\<lambda>(t, k). (t, int k, pieces ! k, hashBuffer e (pieces ! k))) ups"
  let ?g = "\<lambda>k. pieces ! nat k"
  note p = createUploadSession_pending [OF created]
  from p have find1: "findUnique (uploadSession w1) newId = Some s"
    and dir1: "getSessionDir e newId \<in> dirs w1"
    and s: "chunksReceived s = []" "expiresAt s = t0 + 3600000"
       "totalChunks s = int (length pieces)" "finalHash s = hashBuffer e (concat pieces)"
    using fh tc by simp_all
  have inrange: "\<forall>(t, k) \<in> set ups. k < length pieces"
    using order by force
  have calls_ok: "\<forall>(t, i, d, h) \<in> set ?calls.
      \<not> expiresAt s < t \<and> 0 \<le> i \<and> i < totalChunks s \<and> d = ?g i \<and> h = hashBuffer e d"
    using times inrange s by (auto simp: split_def)
  from storeChunks_ok [OF find1 dir1 calls_ok]
  obtain w2 cr where run: "storeChunks e w1 newId ?calls = (Inr (), w2)"
    and find2: "findUnique (uploadSession w2) newId = Some (s\<lparr>chunksReceived := cr\<rparr>)"
    and cr: "set cr = set (chunksReceived s) \<union> (\<lambda>(t, i, d, h). i) ` set ?calls"
    and fs: "\<forall>k. 0 \<le> k \<longrightarrow> files w2 (getChunkPath e newId k) =
              (if k \<in> (\<lambda>(t, i, d, h). i) ` set ?calls then Some (?g k)
               else files w1 (getChunkPath e newId k))"
    and dirs2: "dirs w2 = dirs w1"
    by blast
  have "(\<lambda>(t, i, d, h). i) ` set ?calls = int ` snd ` set ups"
    by (simp add: image_image split_def)
  then have idx: "(\<lambda>(t, i, d, h). i) ` set ?calls = {0..<int (length pieces)}"
    using order by (simp only: image_int_atLeastLessThan) simp
  let ?s2 = "s\<lparr>chunksReceived := cr\<rparr>"
  have "set cr = {0..<int (length pieces)}"
    using cr idx s by simp
  then have missing: "getMissingChunks ?s2 = []"
    using s by (simp add: getMissingChunks_empty_iff)
  have "\<forall>k. 0 \<le> k \<and> k < int (length pieces) \<longrightarrow> files w2 (getChunkPath e newId k) = Some (?g k)"
    using fs unfolding idx by simp
  then have "readChunks_loop e w2 newId (int (length pieces)) 0 [] =
      Inr ([] @ map ?g [0..int (length pieces) - 1])"
    by (rule readChunks_loop_all)
  then have read: "readChunks_loop e w2 newId (totalChunks ?s2) 0 [] = Inr pieces"
    using s by (simp add: map_nth_upto)
  have match: "hashesMatch (hashBuffer e (concat pieces)) (finalHash ?s2)"
    using s by (simp add: hashesMatch_iff)
  have dir2: "getSessionDir e newId \<in> dirs w2" using dirs2 dir1 by simp
  have ids: "id' s = newId" using p by simp
  note re = reassemble_ok [OF find2 missing read match dir2, of t]
  let ?w3 = "w2\<lparr>files := (files w2)(getCompletePath e newId \<mapsto> concat pieces),
        uploadSession :=
          map (\<lambda>x. if id' x = newId then x\<lparr>completedAt := Some t\<rparr> else x) (uploadSession w2)\<rparr>"
  have "map_option completedAt (findUnique (uploadSession ?w3) newId) = Some (Some t)"
    using find2 ids by (simp add: findUnique_map_update)
  with run re show ?thesis
    by (intro exI [of _ w2] exI [of _ ?w3]) simp
qed

lemma storeChunk_runs_alone:
  "interleave e now [True, True, True] (AwaitFindUnique sid i d h, c2, w) =
     (Finished (fst (storeChunk e w now sid i d h)), c2, snd (storeChunk e w now sid i d h))"
  by (simp add: storeChunk_def Let_def writeFile_def prisma_update_def
      split: option.splits)

lemma update_step_overwrites:
  assumes "findUnique (uploadSession w) sid = Some row"
  shows "\<exists>r w'. storeChunk_step e now (AwaitUpdate s sid cr) w = (Finished (Inr r), w')
     \<and> findUnique (uploadSession w') sid = Some (row\<lparr>chunksReceived := cr\<rparr>)"
proof -
  have "id' row = sid" using assms by (rule findUnique_id)
  with assms show ?thesis
    by (simp add: prisma_update_def findUnique_map_update)
qed

lemma two_sequential_chunks:
  assumes find: "findUnique (uploadSession w) sid = Some s"
    and dir: "getSessionDir e sid \<in> dirs w"
    and t1: "\<not> expiresAt s < t1" and t2: "\<not> expiresAt s < t2"
    and i: "0 \<le> i" "i < totalChunks s" and j: "0 \<le> j" "j < totalChunks s"
    and h1: "hashesMatch (hashBuffer e d1) h1" and h2: "hashesMatch (hashBuffer e d2) h2"
  shows "\<exists>r1 w1 r2 w2 s2.
       storeChunk e w t1 sid i d1 h1 = (Inr r1, w1)
     \<and> storeChunk e w1 t2 sid j d2 h2 = (Inr r2, w2)
     \<and> findUnique (uploadSession w2) sid = Some s2
     \<and> set (chunksReceived s2) = insert j (insert i (set (chunksReceived s)))
     \<and> sorted (chunksReceived s2) \<and> distinct (chunksReceived s2)"
proof -
  let ?s1 = "s\<lparr>chunksReceived := sort (Set_add (Set_from (chunksReceived s)) i)\<rparr>"
  from storeChunk_ok_find [OF find t1 i h1 dir]
  obtain r1 w1 where a: "storeChunk e w t1 sid i d1 h1 = (Inr r1, w1)"
    and find1: "findUnique (uploadSession w1) sid = Some ?s1"
    and dirs1: "dirs w1 = dirs w"
    by blast
  have "\<not> expiresAt ?s1 < t2" "j < totalChunks ?s1" "getSessionDir e sid \<in> dirs w1"
    using t2 j dir dirs1 by simp_all
  from storeChunk_ok_find [OF find1 this(1) j(1) this(2) h2 this(3)]
  obtain r2 w2 where b: "storeChunk e w1 t2 sid j d2 h2 = (Inr r2, w2)"
    and find2: "findUnique (uploadSession w2) sid =
       Some (?s1\<lparr>chunksReceived := sort (Set_add (Set_from (chunksReceived ?s1)) j)\<rparr>)"
    by blast
  from a b find2 show ?thesis
    by (auto simp: distinct_Set_add)
qed
lemma storeChunk_step_expiresAt:
  assumes "storeChunk_step e now c w = (c', w')"
  shows "map_option expiresAt (findUnique (uploadSession w') sid') =
         map_option expiresAt (findUnique (uploadSession w) sid')"
proof (cases c)
  case (AwaitFindUnique sid i d h)
  with assms have "w' = w"
    by (auto simp: Let_def split: option.splits if_splits)
  then show ?thesis by simp
next
  case (AwaitWriteFile s sid i d)
  with assms have "uploadSession w' = uploadSession w"
    by (auto simp: Let_def writeFile_def split: if_splits)
  then show ?thesis by simp
next
  case (AwaitUpdate s sid cr)
  show ?thesis
  proof (cases "findUnique (uploadSession w) sid")
    case None
    with assms AwaitUpdate have "w' = w" by (simp add: prisma_update_def)
    then show ?thesis by simp
  next
    case (Some row)
    with assms AwaitUpdate have "uploadSession w' =
        map (\<lambda>x. if id' x = sid then x\<lparr>chunksReceived := cr\<rparr> else x) (uploadSession w)"
      by (auto simp: prisma_update_def)
    then show ?thesis
      by (cases "findUnique (uploadSession w) sid'") (auto simp: findUnique_map_update)
  qed
next
  case (Finished r)
  with assms show ?thesis by simp
qed

lemma storeChunk_after_deadline:
  assumes "findUnique (uploadSession w) sid = Some s" and "expiresAt s < now"
  shows "storeChunk e w now sid i d h = (Inl (SessionExpiredError sid), w)"
  using assms by (simp add: storeChunk_def)

lemma storeChunk_never_expired_before_deadline:
  assumes "findUnique (uploadSession w) sid = Some s" and "\<not> expiresAt s < now"
  shows "fst (storeChunk e w now sid i d h) \<noteq> Inl (SessionExpiredError sid)"
  using assms
  by (auto simp: storeChunk_def Let_def prisma_update_def writeFile_def split: option.splits)

section \<open>Running the service on concrete inputs\<close>

lemma replicate_numeral: "replicate (numeral k) x = x # replicate (pred_numeral k) x"
  by (simp add: numeral_eq_Suc)

lemmas eval_simps = replicate_numeral
  storeChunk_def reassembleAndVerify_def createUploadSession_def getMissingChunks_def
  getMissingChunks_loop.simps readChunks_loop.simps readFile_def writeFile_def
  findUnique_def prisma_update_def prisma_create_def getChunkPath_def getCompletePath_def
  getSessionDir_def SESSIONS_SUBDIR_def padStart_def toString_def toDigits.simps
  Set_from_def Set_add_def hashesMatch_iff hashBuffer_def
  demo_env_def demo_digest_def demo_pieces_def demo_params_def empty_world_def
  demo_session_def demo_world_def Let_def SESSION_EXPIRY_HOURS_def
  demo_partial_session_def demo_partial_world_def demo_bad_session_def demo_bad_world_def
  demo_wide_session_def demo_wide_world_def demo_request_def
  mkdir_def rm_rf_def cleanupSessionFiles_def isInt32_def
  demo_cleaned_world_def demo_pair_params_def demo_pair_world_def demo_pair_session_def

lemma isValidHash_demo: "isValidHash (hashBuffer demo_env b)"
proof -
  have "length b mod 16 < length ''0123456789abcdef''" by simp
  then have "''0123456789abcdef'' ! (length b mod 16) \<in> set ''0123456789abcdef''"
    by (rule nth_mem)
  also have "set ''0123456789abcdef'' = set ''abcdef0123456789''" by auto
  finally show ?thesis
    by (simp add: isValidHash_def hashBuffer_def demo_env_def demo_digest_def list_all_iff)
qed

lemma find_demo_partial:
  "findUnique (uploadSession demo_partial_world) ''s1'' = Some demo_partial_session"
  by (simp add: demo_partial_world_def findUnique_def demo_partial_session_def demo_session_def)

lemma find_demo:
  "findUnique (uploadSession demo_world) ''s1'' = Some demo_session"
  by (simp add: demo_world_def findUnique_def demo_session_def)

lemma dir_demo: "getSessionDir demo_env ''s1'' \<in> dirs demo_world"
  by (simp add: demo_world_def)

lemma dir_demo_partial: "getSessionDir demo_env ''s1'' \<in> dirs demo_partial_world"
  by (simp add: demo_partial_world_def)


section \<open>The claims\<close>

text \<open>
  Claim C1, as the code has it. Round trip for uploads that run one after the other:
  after a successful \<open>createUploadSession\<close> with the final hash of a buffer and the
  number of its pieces, every \<open>storeChunk\<close> of a piece with its own hash before the
  deadline succeeds, in any order that covers every index (repeats allowed), and then
  \<open>reassembleAndVerify\<close> reads the chunks in ascending index order, writes their
  concatenation, which is the buffer, returns the hash of the buffer and sets
  \<open>completedAt\<close>. The pieces are any list of buffers whose concatenation is the buffer,
  so pieces of the declared chunk size with a shorter last one are a special case.
  And \<open>completedAt\<close> changes only there: \<open>storeChunk\<close> never changes it, and when
  \<open>reassembleAndVerify\<close> changes it, no chunk was missing and the hash of the
  concatenated chunk files equals the session's \<open>finalHash\<close>.
\<close>

theorem roundtrip_completes:
  fixes pieces :: "Buffer list" and ups :: "(Date \<times> nat) list"
  shows
  "(createUploadSession e w0 t0 newId params = (Inr s0, w1) \<and>
    finalHash params = hashBuffer e (concat pieces) \<and>
    totalChunks params = int (length pieces) \<and>
    snd ` set ups = {0..<length pieces} \<and>
    (\<forall>(t, k) \<in> set ups. t \<le> t0 + 3600000)
    \<longrightarrow>
    (\<exists>w2 w3.
        storeChunks e w1 newId
           (map (\<lambda>(t, k). (t, int k, pieces ! k, hashBuffer e (pieces ! k))) ups) = (Inr (), w2)
      \<and> reassembleAndVerify e w2 t1 newId =
           (Inr \<lparr>filePath = getCompletePath e newId, verified = True,
                 hash = hashBuffer e (concat pieces)\<rparr>, w3)
      \<and> files w3 (getCompletePath e newId) = Some (concat pieces)
      \<and> map_option completedAt (findUnique (uploadSession w3) newId) = Some (Some t1)))
   \<and>
   (storeChunk e' w now sid i d h = (r, w') \<longrightarrow>
      map_option completedAt (findUnique (uploadSession w') sid') =
      map_option completedAt (findUnique (uploadSession w) sid'))
   \<and>
   (reassembleAndVerify e2 v t2 sid2 = (r2, v2) \<and>
    findUnique (uploadSession v) sid3 = Some s \<and>
    findUnique (uploadSession v2) sid3 = Some s' \<and>
    completedAt s' \<noteq> completedAt s
    \<longrightarrow>
    sid3 = sid2 \<and> getMissingChunks s = [] \<and>
    (\<exists>chunks. readChunks_loop e2 v sid2 (totalChunks s) 0 [] = Inr chunks
        \<and> hashBuffer e2 (concat chunks) = finalHash s
        \<and> files v2 (getCompletePath e2 sid2) = Some (concat chunks)
        \<and> r2 = Inr \<lparr>filePath = getCompletePath e2 sid2, verified = True, hash = finalHash s\<rparr>
        \<and> completedAt s' = Some t2))"
proof (intro conjI impI)
  assume "createUploadSession e w0 t0 newId params = (Inr s0, w1) \<and>
    finalHash params = hashBuffer e (concat pieces) \<and>
    totalChunks params = int (length pieces) \<and>
    snd ` set ups = {0..<length pieces} \<and>
    (\<forall>(t, k) \<in> set ups. t \<le> t0 + 3600000)"
  then show "\<exists>w2 w3.
        storeChunks e w1 newId
           (map (\<lambda>(t, k). (t, int k, pieces ! k, hashBuffer e (pieces ! k))) ups) = (Inr (), w2)
      \<and> reassembleAndVerify e w2 t1 newId =
           (Inr \<lparr>filePath = getCompletePath e newId, verified = True,
                 hash = hashBuffer e (concat pieces)\<rparr>, w3)
      \<and> files w3 (getCompletePath e newId) = Some (concat pieces)
      \<and> map_option completedAt (findUnique (uploadSession w3) newId) = Some (Some t1)"
    using roundtrip_core [of e w0 t0 newId params s0 w1 pieces ups t1] by blast
next
  assume "storeChunk e' w now sid i d h = (r, w')"
  then show "map_option completedAt (findUnique (uploadSession w') sid') =
      map_option completedAt (findUnique (uploadSession w) sid')"
    by (rule storeChunk_completedAt)
next
  assume "reassembleAndVerify e2 v t2 sid2 = (r2, v2) \<and>
    findUnique (uploadSession v) sid3 = Some s \<and>
    findUnique (uploadSession v2) sid3 = Some s' \<and>
    completedAt s' \<noteq> completedAt s"
  with reassemble_gate [of e2 v t2 sid2 r2 v2 sid3 s s']
  show "sid3 = sid2" "getMissingChunks s = []"
    "\<exists>chunks. readChunks_loop e2 v sid2 (totalChunks s) 0 [] = Inr chunks
        \<and> hashBuffer e2 (concat chunks) = finalHash s
        \<and> files v2 (getCompletePath e2 sid2) = Some (concat chunks)
        \<and> r2 = Inr \<lparr>filePath = getCompletePath e2 sid2, verified = True, hash = finalHash s\<rparr>
        \<and> completedAt s' = Some t2"
    by blast+
qed

theorem roundtrip_completes_witness:
  "fst (reassembleAndVerify demo_env
     (snd (storeChunks demo_env
        (snd (createUploadSession demo_env empty_world 0 ''s1'' demo_params)) ''s1''
        [(10, 0, [97, 98, 99, 100], hashBuffer demo_env [97, 98, 99, 100]),
         (20, 2, [105, 106], hashBuffer demo_env [105, 106]),
         (30, 1, [101, 102, 103, 104], hashBuffer demo_env [101, 102, 103, 104])]))
     40 ''s1'') =
   Inr \<lparr>filePath = getCompletePath demo_env ''s1'', verified = True,
        hash = hashBuffer demo_env [97, 98, 99, 100, 101, 102, 103, 104, 105, 106]\<rparr>
   \<and> map_option completedAt
        (findUnique (uploadSession (snd (storeChunk demo_env demo_world 10 ''s1'' 1
           [101, 102, 103, 104] (hashBuffer demo_env [101, 102, 103, 104])))) ''s1'') = Some None
   \<and> fst (reassembleAndVerify demo_env demo_world 40 ''s1'') =
        Inr \<lparr>filePath = getCompletePath demo_env ''s1'', verified = True,
             hash = finalHash demo_session\<rparr>"
proof -
  let ?ups = "[(10, 0), (20, 2), (30, 1)] :: (Date \<times> nat) list"
  note inst = roundtrip_completes [where ?w0.0 = empty_world and newId = "''s1''"
      and params = demo_params and e = demo_env and pieces = demo_pieces and ups = ?ups
      and ?t0.0 = 0 and ?t1.0 = 40
      and ?s0.0 = "projr (fst (createUploadSession demo_env empty_world 0 ''s1'' demo_params))"
      and ?w1.0 = "snd (createUploadSession demo_env empty_world 0 ''s1'' demo_params)"
      and e' = demo_env and w = demo_world and now = 10 and sid = "''s1''" and i = 1
      and d = "[101, 102, 103, 104]" and h = "hashBuffer demo_env [101, 102, 103, 104]"
      and r = "fst (storeChunk demo_env demo_world 10 ''s1'' 1 [101, 102, 103, 104]
         (hashBuffer demo_env [101, 102, 103, 104]))"
      and w' = "snd (storeChunk demo_env demo_world 10 ''s1'' 1 [101, 102, 103, 104]
         (hashBuffer demo_env [101, 102, 103, 104]))"
      and sid' = "''s1''"
      and ?e2.0 = demo_env and v = demo_world and ?t2.0 = 40 and ?sid2.0 = "''s1''"
      and ?r2.0 = "fst (reassembleAndVerify demo_env demo_world 40 ''s1'')"
      and ?v2.0 = "snd (reassembleAndVerify demo_env demo_world 40 ''s1'')"
      and ?sid3.0 = "''s1''"
      and s = demo_session and s' = "demo_session\<lparr>completedAt := Some 40\<rparr>"]
  have fresh: "findUnique (uploadSession empty_world) ''s1'' = None"
    by (simp add: empty_world_def findUnique_def)
  have valid: "isValidHash (finalHash demo_params)"
    by (simp add: demo_params_def isValidHash_demo)
  have range: "isInt32 (totalSize demo_params)" "isInt32 (totalChunks demo_params)"
    "isInt32 (chunkSize demo_params)"
    by (simp_all add: demo_params_def isInt32_def)
  note created = createUploadSession_ok [OF fresh valid range, of demo_env 0]
  have h1: "createUploadSession demo_env empty_world 0 ''s1'' demo_params =
      (Inr (projr (fst (createUploadSession demo_env empty_world 0 ''s1'' demo_params))),
       snd (createUploadSession demo_env empty_world 0 ''s1'' demo_params))"
    by (simp add: created)
  have h2: "finalHash demo_params = hashBuffer demo_env (concat demo_pieces)"
    by (simp add: demo_params_def)
  have h3: "totalChunks demo_params = int (length demo_pieces)"
    by (simp add: demo_params_def demo_pieces_def)
  have h5: "snd ` set ?ups = {0..<length demo_pieces}"
    by (auto simp: demo_pieces_def)
  have h6: "\<forall>(t, k) \<in> set ?ups. t \<le> 0 + 3600000"
    by simp
  have calls: "map (\<lambda>(t, k). (t, int k, demo_pieces ! k, hashBuffer demo_env (demo_pieces ! k))) ?ups =
        [(10, 0, [97, 98, 99, 100], hashBuffer demo_env [97, 98, 99, 100]),
         (20, 2, [105, 106], hashBuffer demo_env [105, 106]),
         (30, 1, [101, 102, 103, 104], hashBuffer demo_env [101, 102, 103, 104])]"
    by (simp add: demo_pieces_def)
  have cat: "concat demo_pieces = [97, 98, 99, 100, 101, 102, 103, 104, 105, 106]"
    by (simp add: demo_pieces_def)
  from inst h1 h2 h3 h5 h6 have
    "\<exists>w2 w3.
        storeChunks demo_env (snd (createUploadSession demo_env empty_world 0 ''s1'' demo_params))
           ''s1''
           (map (\<lambda>(t, k). (t, int k, demo_pieces ! k, hashBuffer demo_env (demo_pieces ! k))) ?ups) = (Inr (), w2)
      \<and> reassembleAndVerify demo_env w2 40 ''s1'' =
           (Inr \<lparr>filePath = getCompletePath demo_env ''s1'', verified = True,
                 hash = hashBuffer demo_env (concat demo_pieces)\<rparr>, w3)
      \<and> files w3 (getCompletePath demo_env ''s1'') = Some (concat demo_pieces)
      \<and> map_option completedAt (findUnique (uploadSession w3) ''s1'') = Some (Some 40)"
    by blast
  then have part1: "fst (reassembleAndVerify demo_env
     (snd (storeChunks demo_env
        (snd (createUploadSession demo_env empty_world 0 ''s1'' demo_params)) ''s1''
        [(10, 0, [97, 98, 99, 100], hashBuffer demo_env [97, 98, 99, 100]),
         (20, 2, [105, 106], hashBuffer demo_env [105, 106]),
         (30, 1, [101, 102, 103, 104], hashBuffer demo_env [101, 102, 103, 104])]))
     40 ''s1'') =
   Inr \<lparr>filePath = getCompletePath demo_env ''s1'', verified = True,
        hash = hashBuffer demo_env [97, 98, 99, 100, 101, 102, 103, 104, 105, 106]\<rparr>"
    unfolding calls cat by auto
  note find0 = find_demo
  from inst have part2: "map_option completedAt
        (findUnique (uploadSession (snd (storeChunk demo_env demo_world 10 ''s1'' 1
           [101, 102, 103, 104] (hashBuffer demo_env [101, 102, 103, 104])))) ''s1'') = Some None"
    by (simp add: find0) (simp add: demo_session_def)
  have g1: "reassembleAndVerify demo_env demo_world 40 ''s1'' =
      (fst (reassembleAndVerify demo_env demo_world 40 ''s1''),
       snd (reassembleAndVerify demo_env demo_world 40 ''s1''))"
    by simp
  have g3: "findUnique (uploadSession (snd (reassembleAndVerify demo_env demo_world 40 ''s1''))) ''s1'' =
      Some (demo_session\<lparr>completedAt := Some 40\<rparr>)"
    by (simp add: eval_simps)
  have g4: "completedAt (demo_session\<lparr>completedAt := Some 40\<rparr>) \<noteq> completedAt demo_session"
    by (simp add: demo_session_def)
  from inst g1 find0 g3 g4 have part3: "fst (reassembleAndVerify demo_env demo_world 40 ''s1'') =
        Inr \<lparr>filePath = getCompletePath demo_env ''s1'', verified = True,
             hash = finalHash demo_session\<rparr>"
    by blast
  from part1 part2 part3 show ?thesis by blast
qed

text \<open>
  Claim C1 as the specification states it does not ask the uploads to run one after the
  other. Here a session of two chunks is created, the two uploads overlap (both read
  the row before either writes it), both return success with the right hashes, and
  \<open>reassembleAndVerify\<close> fails with \<open>ChunksMissingError [0]\<close>.
\<close>

theorem overlapping_uploads_counterexample:
  "findUnique (uploadSession demo_pair_world) ''s2'' = Some demo_pair_session
   \<and> finalHash demo_pair_session = hashBuffer demo_env ([97, 98] @ [99])
   \<and> fst (interleave demo_env 10 [True, False, True, False, True, False]
       (AwaitFindUnique ''s2'' 0 [97, 98] (hashBuffer demo_env [97, 98]),
        AwaitFindUnique ''s2'' 1 [99] (hashBuffer demo_env [99]), demo_pair_world)) =
     Finished (Inr \<lparr>sc_verified = True,
        sc_session = demo_pair_session\<lparr>chunksReceived := [0]\<rparr>,
        sc_chunksReceived = 1, sc_chunksRemaining = 1\<rparr>)
   \<and> fst (snd (interleave demo_env 10 [True, False, True, False, True, False]
       (AwaitFindUnique ''s2'' 0 [97, 98] (hashBuffer demo_env [97, 98]),
        AwaitFindUnique ''s2'' 1 [99] (hashBuffer demo_env [99]), demo_pair_world))) =
     Finished (Inr \<lparr>sc_verified = True,
        sc_session = demo_pair_session\<lparr>chunksReceived := [1]\<rparr>,
        sc_chunksReceived = 1, sc_chunksRemaining = 1\<rparr>)
   \<and> fst (reassembleAndVerify demo_env
        (snd (snd (interleave demo_env 10 [True, False, True, False, True, False]
          (AwaitFindUnique ''s2'' 0 [97, 98] (hashBuffer demo_env [97, 98]),
           AwaitFindUnique ''s2'' 1 [99] (hashBuffer demo_env [99]), demo_pair_world))))
        40 ''s2'') =
     Inl (ChunksMissingError [0])"
  by (simp add: eval_simps isValidHash_def)

text \<open>
  Claim C2, as the code has it. When no chunk is missing, every chunk file can be read
  and the hash of their concatenation does not match the session's \<open>finalHash\<close>,
  \<open>reassembleAndVerify\<close> fails with \<open>FinalHashMismatchError\<close> carrying the expected and
  the actual hash, and the table is unchanged, so the session stays pending. The
  concatenation has been written to the session's \<open>complete\<close> file before the hashes are
  compared, and it stays there. That write needs the directory of the session: where
  the directory is gone the call fails there with \<open>ENOENT\<close> and changes nothing.
\<close>

theorem final_hash_mismatch_keeps_pending:
  assumes "findUnique (uploadSession w) sessionId = Some session"
    and "getMissingChunks session = []"
    and "readChunks_loop e w sessionId (totalChunks session) 0 [] = Inr chunks"
    and "\<not> hashesMatch (hashBuffer e (concat chunks)) (finalHash session)"
  shows "reassembleAndVerify e w now sessionId =
     (if getSessionDir e sessionId \<in> dirs w
      then (Inl (FinalHashMismatchError (finalHash session) (hashBuffer e (concat chunks))),
            w\<lparr>files := (files w)(getCompletePath e sessionId \<mapsto> concat chunks)\<rparr>)
      else (Inl (ENOENT (getCompletePath e sessionId)), w))"
  using assms reassemble_mismatch [of w sessionId session e chunks now]
    reassemble_no_dir [of w sessionId session e chunks now]
  by simp

theorem final_hash_mismatch_keeps_pending_witness:
  "reassembleAndVerify demo_env demo_bad_world 40 ''s1'' =
     (Inl (FinalHashMismatchError (hashBuffer demo_env [1])
        (hashBuffer demo_env (concat demo_pieces))),
      demo_bad_world\<lparr>files := (files demo_bad_world)
         (getCompletePath demo_env ''s1'' \<mapsto> concat demo_pieces)\<rparr>)
   \<and> completedAt demo_bad_session = None"
proof -
  have f: "findUnique (uploadSession demo_bad_world) ''s1'' = Some demo_bad_session"
    by (simp add: demo_bad_world_def findUnique_def demo_bad_session_def demo_session_def)
  have m: "getMissingChunks demo_bad_session = []" by (simp add: eval_simps)
  have r: "readChunks_loop demo_env demo_bad_world ''s1'' (totalChunks demo_bad_session) 0 [] =
      Inr demo_pieces"
    by (simp add: eval_simps)
  have h: "\<not> hashesMatch (hashBuffer demo_env (concat demo_pieces)) (finalHash demo_bad_session)"
    by (simp add: eval_simps)
  have fh: "finalHash demo_bad_session = hashBuffer demo_env [1]"
    and c: "completedAt demo_bad_session = None"
    by (simp_all add: demo_bad_session_def demo_session_def)
  have d: "getSessionDir demo_env ''s1'' \<in> dirs demo_bad_world"
    by (simp add: demo_bad_world_def demo_world_def)
  from final_hash_mismatch_keeps_pending [OF f m r h, of 40] fh c d show ?thesis by simp
qed

text \<open>
  Claim C2 as the specification states it says that no completed-file artifact is left
  behind. Here the \<open>complete\<close> file does not exist before the call and holds the ten
  assembled bytes after the call that failed with \<open>FinalHashMismatchError\<close>.
\<close>

theorem final_hash_mismatch_counterexample:
  "fst (reassembleAndVerify demo_env demo_bad_world 40 ''s1'') =
     Inl (FinalHashMismatchError (hashBuffer demo_env [1])
        (hashBuffer demo_env [97, 98, 99, 100, 101, 102, 103, 104, 105, 106]))
   \<and> files demo_bad_world (getCompletePath demo_env ''s1'') = None
   \<and> files (snd (reassembleAndVerify demo_env demo_bad_world 40 ''s1''))
        (getCompletePath demo_env ''s1'') =
      Some [97, 98, 99, 100, 101, 102, 103, 104, 105, 106]"
  by (simp add: eval_simps)

text \<open>
  Claim C3. For an existing session that is not expired and an index in range, a chunk
  whose hash does not match the claimed hash is rejected with \<open>ChunkHashMismatchError\<close>
  carrying the claimed and the actual hash, and the state is the one before the call:
  no file is written and the row of the session is unchanged.
\<close>

theorem chunk_hash_mismatch_rejected:
  assumes "findUnique (uploadSession w) sessionId = Some session"
    and "\<not> expiresAt session < now"
    and "0 \<le> chunkIndex" and "chunkIndex < totalChunks session"
    and "\<not> hashesMatch (hashBuffer e data) expectedHash"
  shows "storeChunk e w now sessionId chunkIndex data expectedHash =
           (Inl (ChunkHashMismatchError expectedHash (hashBuffer e data)), w)"
  using assms by (simp add: storeChunk_def Let_def)

theorem chunk_hash_mismatch_rejected_witness:
  "storeChunk demo_env demo_partial_world 10 ''s1'' 1 [101, 102, 103, 104]
      (hashBuffer demo_env [1]) =
     (Inl (ChunkHashMismatchError (hashBuffer demo_env [1])
            (hashBuffer demo_env [101, 102, 103, 104])), demo_partial_world)
   \<and> files demo_partial_world (getChunkPath demo_env ''s1'' 1) = None
   \<and> getMissingChunks demo_partial_session = [1]"
proof -
  have a: "\<not> expiresAt demo_partial_session < 10"
    and b: "(1::int) < totalChunks demo_partial_session"
    by (simp_all add: demo_partial_session_def demo_session_def)
  have c: "\<not> hashesMatch (hashBuffer demo_env [101, 102, 103, 104]) (hashBuffer demo_env [1])"
    by (simp add: eval_simps)
  have d: "files demo_partial_world (getChunkPath demo_env ''s1'' 1) = None"
    by (simp add: eval_simps)
  have e: "getMissingChunks demo_partial_session = [1]"
    by (simp add: eval_simps)
  from chunk_hash_mismatch_rejected [OF find_demo_partial a _ b c] d e
  show ?thesis by simp
qed

text \<open>
  Claim C4, as the code has it. The comparison is strict: a session whose \<open>expiresAt\<close>
  is earlier than the clock rejects every \<open>storeChunk\<close>, whatever the index, the bytes
  and the hash, with \<open>SessionExpiredError\<close>, and the state is unchanged; a session whose
  \<open>expiresAt\<close> is not earlier than the clock, the instant \<open>expiresAt = now\<close> included,
  is never answered with \<open>SessionExpiredError\<close>. No call moves the deadline:
  \<open>storeChunk\<close>, and each of its steps when calls overlap, leaves \<open>expiresAt\<close> of every
  session as it was, so after any run of calls, accepted or not, a call later than the
  deadline is rejected.
\<close>

theorem expired_session_rejects_chunks:
  assumes "findUnique (uploadSession w) sessionId = Some session"
  shows "(expiresAt session < now \<longrightarrow>
            storeChunk e w now sessionId chunkIndex data expectedHash =
              (Inl (SessionExpiredError sessionId), w))
       \<and> (\<not> expiresAt session < now \<longrightarrow>
            fst (storeChunk e w now sessionId chunkIndex data expectedHash) \<noteq>
              Inl (SessionExpiredError sessionId))
       \<and> map_option expiresAt (findUnique (uploadSession
            (snd (storeChunk e w now sessionId chunkIndex data expectedHash))) sid') =
          map_option expiresAt (findUnique (uploadSession w) sid')
       \<and> map_option expiresAt (findUnique (uploadSession
            (snd (storeChunk_step e now call w))) sid') =
          map_option expiresAt (findUnique (uploadSession w) sid')
       \<and> (expiresAt session < later \<longrightarrow>
            storeChunk e (snd (storeChunks e w sessionId calls)) later sessionId i d h =
              (Inl (SessionExpiredError sessionId), snd (storeChunks e w sessionId calls)))"
proof (intro conjI impI)
  assume "expiresAt session < now"
  with assms show "storeChunk e w now sessionId chunkIndex data expectedHash =
              (Inl (SessionExpiredError sessionId), w)"
    by (rule storeChunk_after_deadline)
next
  assume "\<not> expiresAt session < now"
  with assms show "fst (storeChunk e w now sessionId chunkIndex data expectedHash) \<noteq>
              Inl (SessionExpiredError sessionId)"
    by (rule storeChunk_never_expired_before_deadline)
next
  show "map_option expiresAt (findUnique (uploadSession
            (snd (storeChunk e w now sessionId chunkIndex data expectedHash))) sid') =
          map_option expiresAt (findUnique (uploadSession w) sid')"
    by (rule storeChunk_expiresAt [of e w now sessionId chunkIndex data expectedHash
          "fst (storeChunk e w now sessionId chunkIndex data expectedHash)"]) simp
next
  show "map_option expiresAt (findUnique (uploadSession
            (snd (storeChunk_step e now call w))) sid') =
          map_option expiresAt (findUnique (uploadSession w) sid')"
    by (rule storeChunk_step_expiresAt [of e now call w "fst (storeChunk_step e now call w)"])
      simp
next
  assume late: "expiresAt session < later"
  let ?w' = "snd (storeChunks e w sessionId calls)"
  have "storeChunks e w sessionId calls = (fst (storeChunks e w sessionId calls), ?w')"
    by simp
  from storeChunks_expiresAt [OF this, of sessionId] assms
  obtain s' where "findUnique (uploadSession ?w') sessionId = Some s'"
    and "expiresAt s' = expiresAt session"
    by auto
  with late storeChunk_after_deadline [of ?w' sessionId s' later e i d h]
  show "storeChunk e ?w' later sessionId i d h =
              (Inl (SessionExpiredError sessionId), ?w')"
    by simp
qed

theorem expired_session_rejects_chunks_witness:
  "storeChunk demo_env demo_partial_world 3600001 ''s1'' 1 [101, 102, 103, 104]
      (hashBuffer demo_env [101, 102, 103, 104]) =
     (Inl (SessionExpiredError ''s1''), demo_partial_world)
   \<and> fst (storeChunk demo_env demo_partial_world 3600000 ''s1'' 1 [101, 102, 103, 104]
      (hashBuffer demo_env [101, 102, 103, 104])) \<noteq> Inl (SessionExpiredError ''s1'')
   \<and> map_option expiresAt (findUnique (uploadSession
        (snd (storeChunk demo_env demo_partial_world 3600000 ''s1'' 1 [101, 102, 103, 104]
          (hashBuffer demo_env [101, 102, 103, 104])))) ''s1'') = Some 3600000
   \<and> fst (storeChunk demo_env
        (snd (storeChunks demo_env demo_partial_world ''s1''
           [(3599999, 1, [101, 102, 103, 104], hashBuffer demo_env [101, 102, 103, 104]),
            (3600000, 1, [101, 102, 103, 104], hashBuffer demo_env [101, 102, 103, 104])]))
        3600001 ''s1'' 1 [101, 102, 103, 104] (hashBuffer demo_env [101, 102, 103, 104])) =
      Inl (SessionExpiredError ''s1'')"
proof -
  have a: "expiresAt demo_partial_session < 3600001"
    and b: "\<not> expiresAt demo_partial_session < 3600000"
    and c: "expiresAt demo_partial_session = 3600000"
    by (simp_all add: demo_partial_session_def demo_session_def)
  note late = expired_session_rejects_chunks [OF find_demo_partial, where now = 3600001
      and later = 3600001 and e = demo_env and chunkIndex = 1
      and data = "[101, 102, 103, 104]"
      and expectedHash = "hashBuffer demo_env [101, 102, 103, 104]"
      and sid' = "''s1''"
      and call = "AwaitFindUnique ''s1'' 1 [101, 102, 103, 104]
         (hashBuffer demo_env [101, 102, 103, 104])"
      and calls = "[(3599999, 1, [101, 102, 103, 104], hashBuffer demo_env [101, 102, 103, 104]),
            (3600000, 1, [101, 102, 103, 104], hashBuffer demo_env [101, 102, 103, 104])]"
      and i = 1 and d = "[101, 102, 103, 104]"
      and h = "hashBuffer demo_env [101, 102, 103, 104]"]
  note edge = expired_session_rejects_chunks [OF find_demo_partial, where now = 3600000
      and later = 3600001 and e = demo_env and chunkIndex = 1
      and data = "[101, 102, 103, 104]"
      and expectedHash = "hashBuffer demo_env [101, 102, 103, 104]"
      and sid' = "''s1''"
      and call = "AwaitFindUnique ''s1'' 1 [101, 102, 103, 104]
         (hashBuffer demo_env [101, 102, 103, 104])"
      and calls = "[]"
      and i = 1 and d = "[101, 102, 103, 104]"
      and h = "hashBuffer demo_env [101, 102, 103, 104]"]
  from late a have p1: "storeChunk demo_env demo_partial_world 3600001 ''s1'' 1 [101, 102, 103, 104]
      (hashBuffer demo_env [101, 102, 103, 104]) =
     (Inl (SessionExpiredError ''s1''), demo_partial_world)"
    by blast
  from edge b have p2: "fst (storeChunk demo_env demo_partial_world 3600000 ''s1'' 1
      [101, 102, 103, 104] (hashBuffer demo_env [101, 102, 103, 104])) \<noteq>
      Inl (SessionExpiredError ''s1'')"
    by blast
  from edge have p3: "map_option expiresAt (findUnique (uploadSession
        (snd (storeChunk demo_env demo_partial_world 3600000 ''s1'' 1 [101, 102, 103, 104]
          (hashBuffer demo_env [101, 102, 103, 104])))) ''s1'') = Some 3600000"
    by (simp add: find_demo_partial c)
  from late a have p4: "fst (storeChunk demo_env
        (snd (storeChunks demo_env demo_partial_world ''s1''
           [(3599999, 1, [101, 102, 103, 104], hashBuffer demo_env [101, 102, 103, 104]),
            (3600000, 1, [101, 102, 103, 104], hashBuffer demo_env [101, 102, 103, 104])]))
        3600001 ''s1'' 1 [101, 102, 103, 104] (hashBuffer demo_env [101, 102, 103, 104])) =
      Inl (SessionExpiredError ''s1'')"
    by simp
  from p1 p2 p3 p4 show ?thesis by blast
qed

text \<open>
  Claim C4 as the specification states it rejects at \<open>expiresAt \<le> now\<close>. At the
  instant \<open>expiresAt = now\<close> the chunk is accepted, written and recorded.
\<close>

theorem expiry_boundary_counterexample:
  "findUnique (uploadSession demo_partial_world) ''s1'' = Some demo_partial_session
   \<and> expiresAt demo_partial_session \<le> 3600000
   \<and> fst (storeChunk demo_env demo_partial_world 3600000 ''s1'' 1 [101, 102, 103, 104]
        (hashBuffer demo_env [101, 102, 103, 104])) =
      Inr \<lparr>sc_verified = True, sc_session = demo_session,
           sc_chunksReceived = 3, sc_chunksRemaining = 0\<rparr>
   \<and> files (snd (storeChunk demo_env demo_partial_world 3600000 ''s1'' 1 [101, 102, 103, 104]
        (hashBuffer demo_env [101, 102, 103, 104]))) (getChunkPath demo_env ''s1'' 1) =
      Some [101, 102, 103, 104]"
  by (simp add: eval_simps)

text \<open>
  Claim C5, as the code has it. A new session has \<open>completedAt\<close> null, \<open>storeChunk\<close>
  never changes \<open>completedAt\<close>, and a failed \<open>reassembleAndVerify\<close> leaves the table
  unchanged. There is no check for a session that is already completed: every
  successful \<open>reassembleAndVerify\<close> sets \<open>completedAt\<close> to the time of that call, and
  a second call right after a success reads the chunk files again, verifies again,
  returns the same result and overwrites \<open>completedAt\<close>.
\<close>

theorem completedAt_set_on_each_success:
  "(createUploadSession e w now newId params = (Inr s, w') \<longrightarrow>
      completedAt s = None \<and> findUnique (uploadSession w') newId = Some s)
   \<and> (storeChunk e u t sid i d h = (r, u') \<longrightarrow>
      map_option completedAt (findUnique (uploadSession u') sid') =
      map_option completedAt (findUnique (uploadSession u) sid'))
   \<and> (reassembleAndVerify e v t0 sid0 = (Inl err, v0) \<longrightarrow> uploadSession v0 = uploadSession v)
   \<and> (reassembleAndVerify e v t1 sid1 = (Inr res, v1) \<longrightarrow>
      (\<exists>v2. reassembleAndVerify e v1 t2 sid1 = (Inr res, v2)
         \<and> map_option completedAt (findUnique (uploadSession v1) sid1) = Some (Some t1)
         \<and> map_option completedAt (findUnique (uploadSession v2) sid1) = Some (Some t2)))"
  using createUploadSession_pending [of e w now newId params s w']
    storeChunk_completedAt [of e u t sid i d h r u' sid']
    reassemble_failure_table [of e v t0 sid0 err v0]
    reassemble_again [of e v t1 sid1 res v1 t2]
  by blast

theorem completedAt_set_on_each_success_witness:
  "(\<exists>s w'. createUploadSession demo_env empty_world 0 ''s1'' demo_params = (Inr s, w')
       \<and> completedAt s = None \<and> findUnique (uploadSession w') ''s1'' = Some s)
   \<and> map_option completedAt (findUnique (uploadSession
        (snd (storeChunk demo_env demo_partial_world 10 ''s1'' 1 [101, 102, 103, 104]
           (hashBuffer demo_env [101, 102, 103, 104])))) ''s1'') = Some None
   \<and> uploadSession (snd (reassembleAndVerify demo_env demo_partial_world 40 ''s1'')) =
       uploadSession demo_partial_world
   \<and> (\<exists>v2. reassembleAndVerify demo_env
          (snd (reassembleAndVerify demo_env demo_world 40 ''s1'')) 50 ''s1'' =
            (Inr \<lparr>filePath = getCompletePath demo_env ''s1'', verified = True,
                  hash = hashBuffer demo_env (concat demo_pieces)\<rparr>, v2)
        \<and> map_option completedAt (findUnique (uploadSession
             (snd (reassembleAndVerify demo_env demo_world 40 ''s1''))) ''s1'') = Some (Some 40)
        \<and> map_option completedAt (findUnique (uploadSession v2) ''s1'') = Some (Some 50))"
proof -
  have fresh: "findUnique (uploadSession empty_world) ''s1'' = None"
    by (simp add: empty_world_def findUnique_def)
  have valid: "isValidHash (finalHash demo_params)"
    by (simp add: demo_params_def isValidHash_demo)
  have range: "isInt32 (totalSize demo_params)" "isInt32 (totalChunks demo_params)"
    "isInt32 (chunkSize demo_params)"
    by (simp_all add: demo_params_def isInt32_def)
  note created = createUploadSession_ok [OF fresh valid range, of demo_env 0]
  from completedAt_set_on_each_success [where e = demo_env and w = empty_world and now = 0
      and newId = "''s1''" and params = demo_params, THEN conjunct1, rule_format, OF created]
  have p1: "\<exists>s w'. createUploadSession demo_env empty_world 0 ''s1'' demo_params = (Inr s, w')
       \<and> completedAt s = None \<and> findUnique (uploadSession w') ''s1'' = Some s"
    using created by blast
  have st: "storeChunk demo_env demo_partial_world 10 ''s1'' 1 [101, 102, 103, 104]
           (hashBuffer demo_env [101, 102, 103, 104]) =
      (fst (storeChunk demo_env demo_partial_world 10 ''s1'' 1 [101, 102, 103, 104]
           (hashBuffer demo_env [101, 102, 103, 104])),
       snd (storeChunk demo_env demo_partial_world 10 ''s1'' 1 [101, 102, 103, 104]
           (hashBuffer demo_env [101, 102, 103, 104])))"
    by simp
  have c0: "completedAt demo_partial_session = None"
    by (simp add: demo_partial_session_def demo_session_def)
  from completedAt_set_on_each_success [where e = demo_env and u = demo_partial_world
      and t = 10 and sid = "''s1''" and i = 1 and d = "[101, 102, 103, 104]"
      and h = "hashBuffer demo_env [101, 102, 103, 104]" and sid' = "''s1''",
      THEN conjunct2, THEN conjunct1, rule_format, OF st]
  have p2: "map_option completedAt (findUnique (uploadSession
        (snd (storeChunk demo_env demo_partial_world 10 ''s1'' 1 [101, 102, 103, 104]
           (hashBuffer demo_env [101, 102, 103, 104])))) ''s1'') = Some None"
    by (simp add: find_demo_partial c0)
  have m1: "getMissingChunks demo_partial_session \<noteq> []" by (simp add: eval_simps)
  note failed = reassemble_missing [OF find_demo_partial m1, of demo_env 40]
  from completedAt_set_on_each_success [where e = demo_env and v = demo_partial_world
      and ?t0.0 = 40 and ?sid0.0 = "''s1''",
      THEN conjunct2, THEN conjunct2, THEN conjunct1, rule_format, OF failed]
  have p3: "uploadSession (snd (reassembleAndVerify demo_env demo_partial_world 40 ''s1'')) =
       uploadSession demo_partial_world"
    using failed by simp
  note f = find_demo
  have m0: "getMissingChunks demo_session = []" by (simp add: eval_simps)
  have rd: "readChunks_loop demo_env demo_world ''s1'' (totalChunks demo_session) 0 [] =
      Inr demo_pieces"
    by (simp add: eval_simps)
  have hm: "hashesMatch (hashBuffer demo_env (concat demo_pieces)) (finalHash demo_session)"
    by (simp add: hashesMatch_iff demo_session_def)
  note succeeded = reassemble_ok [OF f m0 rd hm dir_demo, of 40]
  from completedAt_set_on_each_success [where e = demo_env and v = demo_world
      and ?t1.0 = 40 and ?sid1.0 = "''s1''" and ?t2.0 = 50,
      THEN conjunct2, THEN conjunct2, THEN conjunct2, rule_format, OF succeeded]
  have p4: "\<exists>v2. reassembleAndVerify demo_env
          (snd (reassembleAndVerify demo_env demo_world 40 ''s1'')) 50 ''s1'' =
            (Inr \<lparr>filePath = getCompletePath demo_env ''s1'', verified = True,
                  hash = hashBuffer demo_env (concat demo_pieces)\<rparr>, v2)
        \<and> map_option completedAt (findUnique (uploadSession
             (snd (reassembleAndVerify demo_env demo_world 40 ''s1''))) ''s1'') = Some (Some 40)
        \<and> map_option completedAt (findUnique (uploadSession v2) ''s1'') = Some (Some 50)"
    using succeeded by simp
  from p1 p2 p3 p4 show ?thesis by blast
qed

text \<open>
  Claim C5 as the specification states it has \<open>completedAt\<close> set exactly once and a
  completed session immutable. Here a session completed at time 40 is completed again
  at time 50; and after its completion \<open>storeChunk\<close> still replaces chunk 1, and the
  next \<open>reassembleAndVerify\<close> verifies the changed files and fails with
  \<open>FinalHashMismatchError\<close>, neither the same result nor a rejection as already
  completed.
\<close>

theorem completed_session_counterexample:
  "map_option completedAt (findUnique (uploadSession
      (snd (reassembleAndVerify demo_env demo_world 40 ''s1''))) ''s1'') = Some (Some 40)
   \<and> map_option completedAt (findUnique (uploadSession
      (snd (reassembleAndVerify demo_env
         (snd (reassembleAndVerify demo_env demo_world 40 ''s1'')) 50 ''s1''))) ''s1'') =
      Some (Some 50)
   \<and> map_sum id sc_chunksReceived
       (fst (storeChunk demo_env (snd (reassembleAndVerify demo_env demo_world 40 ''s1''))
          45 ''s1'' 1 [1, 2, 3] (hashBuffer demo_env [1, 2, 3]))) = Inr 3
   \<and> fst (reassembleAndVerify demo_env
        (snd (storeChunk demo_env (snd (reassembleAndVerify demo_env demo_world 40 ''s1''))
          45 ''s1'' 1 [1, 2, 3] (hashBuffer demo_env [1, 2, 3]))) 50 ''s1'') =
      Inl (FinalHashMismatchError (hashBuffer demo_env (concat demo_pieces))
            (hashBuffer demo_env [97, 98, 99, 100, 1, 2, 3, 105, 106]))"
  by (simp add: eval_simps)

text \<open>
  Claim C6, as the code has it. The missing chunks of a session are exactly the indices
  of \<open>[0, totalChunks)\<close> that are not in \<open>chunksReceived\<close>, in ascending order without
  repeats; the list is empty exactly when every index is in \<open>chunksReceived\<close>. The
  status route returns this list, and \<open>reassembleAndVerify\<close> fails with
  \<open>ChunksMissingError\<close> carrying this list and leaves the state unchanged when the list
  is not empty, and does not fail with \<open>ChunksMissingError\<close> when it is empty. A
  \<open>storeChunk\<close> that returns success has added its index to \<open>chunksReceived\<close> and kept
  the others; so once calls that ran one after the other have accepted every index, in
  any order and with repeats, the list is empty and the status route reports no missing
  chunk.
\<close>

theorem missing_chunks_exact:
  "set (getMissingChunks session) = {0..<totalChunks session} - set (chunksReceived session)
   \<and> sorted (getMissingChunks session) \<and> distinct (getMissingChunks session)
   \<and> (getMissingChunks session = [] \<longleftrightarrow>
        {0..<totalChunks session} \<subseteq> set (chunksReceived session))
   \<and> (findUnique (uploadSession w) sessionId = Some s \<longrightarrow>
        (\<exists>r. uploadStatus w sessionId = Inr r \<and> status_chunksMissing r = getMissingChunks s)
      \<and> (getMissingChunks s \<noteq> [] \<longrightarrow>
           reassembleAndVerify e w now sessionId =
             (Inl (ChunksMissingError (getMissingChunks s)), w))
      \<and> (getMissingChunks s = [] \<longrightarrow>
           fst (reassembleAndVerify e w now sessionId) \<noteq> Inl (ChunksMissingError m)))
   \<and> (storeChunk e u t sid i d h = (Inr r1, u') \<longrightarrow>
        (\<exists>s1 s2. findUnique (uploadSession u) sid = Some s1
           \<and> findUnique (uploadSession u') sid = Some s2
           \<and> set (chunksReceived s2) = insert i (set (chunksReceived s1))
           \<and> totalChunks s2 = totalChunks s1))
   \<and> (storeChunks e v sid0 calls = (Inr (), v') \<and>
       findUnique (uploadSession v) sid0 = Some s0 \<and>
       {0..<totalChunks s0} \<subseteq> (\<lambda>(t, i, d, h). i) ` set calls
       \<longrightarrow>
        (\<exists>s'. findUnique (uploadSession v') sid0 = Some s' \<and> getMissingChunks s' = []
           \<and> (\<exists>r. uploadStatus v' sid0 = Inr r \<and> status_chunksMissing r = [])))"
proof (intro conjI impI)
  show "set (getMissingChunks session) = {0..<totalChunks session} - set (chunksReceived session)"
    by (rule getMissingChunks_set)
  show "sorted (getMissingChunks session)" "distinct (getMissingChunks session)"
    using getMissingChunks_sorted by blast+
  show "getMissingChunks session = [] \<longleftrightarrow>
        {0..<totalChunks session} \<subseteq> set (chunksReceived session)"
    by (rule getMissingChunks_empty_iff)
next
  assume "findUnique (uploadSession w) sessionId = Some s"
  then show "\<exists>r. uploadStatus w sessionId = Inr r \<and> status_chunksMissing r = getMissingChunks s"
    by (simp add: uploadStatus_def getSessionStatus_def Let_def)
next
  assume "findUnique (uploadSession w) sessionId = Some s" and "getMissingChunks s \<noteq> []"
  then show "reassembleAndVerify e w now sessionId =
             (Inl (ChunksMissingError (getMissingChunks s)), w)"
    by (rule reassemble_missing)
next
  assume "findUnique (uploadSession w) sessionId = Some s" and "getMissingChunks s = []"
  then show "fst (reassembleAndVerify e w now sessionId) \<noteq> Inl (ChunksMissingError m)"
    using reassemble_cases [of w sessionId e now] by auto
next
  assume "storeChunk e u t sid i d h = (Inr r1, u')"
  from storeChunk_success_find [OF this]
  obtain s1 where "findUnique (uploadSession u) sid = Some s1"
    and "findUnique (uploadSession u') sid =
       Some (s1\<lparr>chunksReceived := sort (Set_add (Set_from (chunksReceived s1)) i)\<rparr>)"
    by blast
  then show "\<exists>s1 s2. findUnique (uploadSession u) sid = Some s1
           \<and> findUnique (uploadSession u') sid = Some s2
           \<and> set (chunksReceived s2) = insert i (set (chunksReceived s1))
           \<and> totalChunks s2 = totalChunks s1"
    by simp
next
  assume a: "storeChunks e v sid0 calls = (Inr (), v') \<and>
       findUnique (uploadSession v) sid0 = Some s0 \<and>
       {0..<totalChunks s0} \<subseteq> (\<lambda>(t, i, d, h). i) ` set calls"
  then have run: "storeChunks e v sid0 calls = (Inr (), v')"
    and find: "findUnique (uploadSession v) sid0 = Some s0"
    and all: "{0..<totalChunks s0} \<subseteq> (\<lambda>(t, i, d, h). i) ` set calls"
    by simp_all
  from storeChunks_success [OF run find]
  obtain cr where find': "findUnique (uploadSession v') sid0 = Some (s0\<lparr>chunksReceived := cr\<rparr>)"
    and cr: "set cr = set (chunksReceived s0) \<union> (\<lambda>(t, i, d, h). i) ` set calls"
    by blast
  have empty: "getMissingChunks (s0\<lparr>chunksReceived := cr\<rparr>) = []"
    using all cr by (auto simp: getMissingChunks_empty_iff)
  with find' show "\<exists>s'. findUnique (uploadSession v') sid0 = Some s' \<and> getMissingChunks s' = []
           \<and> (\<exists>r. uploadStatus v' sid0 = Inr r \<and> status_chunksMissing r = [])"
    by (simp add: uploadStatus_def getSessionStatus_def Let_def)
qed

theorem missing_chunks_exact_witness:
  "getMissingChunks demo_partial_session = [1]
   \<and> map_sum id status_chunksMissing (uploadStatus demo_partial_world ''s1'') = Inr [1]
   \<and> reassembleAndVerify demo_env demo_partial_world 40 ''s1'' =
        (Inl (ChunksMissingError [1]), demo_partial_world)
   \<and> getMissingChunks demo_session = []
   \<and> fst (reassembleAndVerify demo_env demo_world 40 ''s1'') \<noteq> Inl (ChunksMissingError [])
   \<and> (\<exists>s2. findUnique (uploadSession
          (snd (storeChunk demo_env demo_partial_world 10 ''s1'' 1 [101, 102, 103, 104]
             (hashBuffer demo_env [101, 102, 103, 104])))) ''s1'' = Some s2
        \<and> set (chunksReceived s2) = {0, 1, 2})
   \<and> map_sum id status_chunksMissing (uploadStatus
        (snd (storeChunks demo_env
           (snd (createUploadSession demo_env empty_world 0 ''s1'' demo_params)) ''s1''
           [(10, 2, [105, 106], hashBuffer demo_env [105, 106]),
            (20, 0, [97, 98, 99, 100], hashBuffer demo_env [97, 98, 99, 100]),
            (30, 2, [105, 106], hashBuffer demo_env [105, 106]),
            (40, 1, [101, 102, 103, 104], hashBuffer demo_env [101, 102, 103, 104])]))
        ''s1'') = Inr []"
proof -
  let ?one = "storeChunk demo_env demo_partial_world 10 ''s1'' 1 [101, 102, 103, 104]
             (hashBuffer demo_env [101, 102, 103, 104])"
  let ?w1 = "snd (createUploadSession demo_env empty_world 0 ''s1'' demo_params)"
  let ?calls = "[(10, 2, [105, 106], hashBuffer demo_env [105, 106]),
            (20, 0, [97, 98, 99, 100], hashBuffer demo_env [97, 98, 99, 100]),
            (30, 2, [105, 106], hashBuffer demo_env [105, 106]),
            (40, 1, [101, 102, 103, 104], hashBuffer demo_env [101, 102, 103, 104])]
          :: (Date \<times> int \<times> Buffer \<times> string) list"
  let ?many = "storeChunks demo_env ?w1 ''s1'' ?calls"
  have m1: "getMissingChunks demo_partial_session = [1]" by (simp add: eval_simps)
  have m0: "getMissingChunks demo_session = []" by (simp add: eval_simps)
  have one: "?one = (Inr (projr (fst ?one)), snd ?one)"
    by (simp add: eval_simps)
  have c1: "chunksReceived demo_partial_session = [0, 2]"
    by (simp add: demo_partial_session_def)
  have many: "?many = (Inr (), snd ?many)"
    by (simp add: eval_simps isValidHash_def)
  have f1: "findUnique (uploadSession ?w1) ''s1'' =
      Some (demo_session\<lparr>chunksReceived := []\<rparr>)"
    by (simp add: eval_simps isValidHash_def)
  have all: "{0..<totalChunks (demo_session\<lparr>chunksReceived := []\<rparr>)} \<subseteq>
      (\<lambda>(t, i, d, h). i) ` set ?calls"
    by (auto simp: demo_session_def)
  note p = missing_chunks_exact [where session = demo_session and m = "[]"
      and w = demo_partial_world and sessionId = "''s1''"
      and s = demo_partial_session and e = demo_env and now = 40
      and u = demo_partial_world and t = 10 and sid = "''s1''" and i = 1
      and d = "[101, 102, 103, 104]" and h = "hashBuffer demo_env [101, 102, 103, 104]"
      and ?r1.0 = "projr (fst ?one)" and u' = "snd ?one"
      and v = ?w1 and ?sid0.0 = "''s1''" and calls = ?calls and v' = "snd ?many"
      and ?s0.0 = "demo_session\<lparr>chunksReceived := []\<rparr>"]
  note q = missing_chunks_exact [where session = demo_session
      and w = demo_world and sessionId = "''s1''"
      and s = demo_session and e = demo_env and now = 40 and m = "[]"
      and u = demo_partial_world and t = 10 and sid = "''s1''" and i = 1
      and d = "[101, 102, 103, 104]" and h = "hashBuffer demo_env [101, 102, 103, 104]"
      and ?r1.0 = "projr (fst ?one)" and u' = "snd ?one"
      and v = ?w1 and ?sid0.0 = "''s1''" and calls = ?calls and v' = "snd ?many"
      and ?s0.0 = "demo_session\<lparr>chunksReceived := []\<rparr>"]
  from p find_demo_partial m1
  have "\<exists>r. uploadStatus demo_partial_world ''s1'' = Inr r \<and> status_chunksMissing r = [1]"
    and re: "reassembleAndVerify demo_env demo_partial_world 40 ''s1'' =
        (Inl (ChunksMissingError [1]), demo_partial_world)"
    by auto
  then have st: "map_sum id status_chunksMissing (uploadStatus demo_partial_world ''s1'') = Inr [1]"
    by auto
  from q find_demo m0 have ne: "fst (reassembleAndVerify demo_env demo_world 40 ''s1'') \<noteq>
      Inl (ChunksMissingError [])"
    by blast
  from p one find_demo_partial c1
  have link: "\<exists>s2. findUnique (uploadSession (snd ?one)) ''s1'' = Some s2
        \<and> set (chunksReceived s2) = {0, 1, 2}"
    by (auto simp: insert_commute)
  from p many f1 all
  have "\<exists>r. uploadStatus (snd ?many) ''s1'' = Inr r \<and> status_chunksMissing r = []"
    by blast
  then have seq: "map_sum id status_chunksMissing (uploadStatus (snd ?many) ''s1'') = Inr []"
    by auto
  from m1 m0 st re ne link seq show ?thesis by blast
qed

text \<open>
  Claim C6 as the specification states it has the list empty once every index has been
  accepted. Here the two chunks of a session are accepted by calls that overlap, and
  the status route reports chunk 0 missing.
\<close>

theorem overlapping_status_counterexample:
  "fst (interleave demo_env 10 [True, False, True, False, True, False]
       (AwaitFindUnique ''s2'' 0 [97, 98] (hashBuffer demo_env [97, 98]),
        AwaitFindUnique ''s2'' 1 [99] (hashBuffer demo_env [99]), demo_pair_world)) =
     Finished (Inr \<lparr>sc_verified = True,
        sc_session = demo_pair_session\<lparr>chunksReceived := [0]\<rparr>,
        sc_chunksReceived = 1, sc_chunksRemaining = 1\<rparr>)
   \<and> fst (snd (interleave demo_env 10 [True, False, True, False, True, False]
       (AwaitFindUnique ''s2'' 0 [97, 98] (hashBuffer demo_env [97, 98]),
        AwaitFindUnique ''s2'' 1 [99] (hashBuffer demo_env [99]), demo_pair_world))) =
     Finished (Inr \<lparr>sc_verified = True,
        sc_session = demo_pair_session\<lparr>chunksReceived := [1]\<rparr>,
        sc_chunksReceived = 1, sc_chunksRemaining = 1\<rparr>)
   \<and> map_sum id status_chunksMissing (uploadStatus
        (snd (snd (interleave demo_env 10 [True, False, True, False, True, False]
          (AwaitFindUnique ''s2'' 0 [97, 98] (hashBuffer demo_env [97, 98]),
           AwaitFindUnique ''s2'' 1 [99] (hashBuffer demo_env [99]), demo_pair_world))))
        ''s2'') =
     Inr [0]"
  by (simp add: eval_simps isValidHash_def uploadStatus_def getSessionStatus_def)

text \<open>
  Claim C7, as the code has it. \<open>createUploadSession\<close> checks the hash only: a final
  hash that is not well-formed makes it throw \<open>Error\<close> (invalid hash format) and leave
  the state unchanged. It does not look at the sign of the three numbers: with a
  well-formed hash, a fresh id and numbers that fit the 32-bit columns it returns a new
  pending session (\<open>completedAt\<close> null, \<open>chunksReceived\<close> empty) expiring exactly one
  hour after the call, and with a number that does not fit the database refuses the row.
  The sign is checked one layer up: the start route replies 400 and creates nothing when
  the hash is not well-formed or one of \<open>totalSize\<close>, \<open>totalChunks\<close>, \<open>chunkSize\<close> is
  not positive; otherwise it creates the session when the numbers fit and replies 500
  when they do not.
\<close>

theorem session_creation_validation:
  "(\<not> isValidHash (finalHash params) \<longrightarrow>
      createUploadSession e w now newId params =
        (Inl (Error (''Invalid hash format: '' @ finalHash params)), w))
   \<and> (isValidHash (finalHash params) \<and> findUnique (uploadSession w) newId = None \<and>
       isInt32 (totalSize params) \<and> isInt32 (totalChunks params) \<and>
       isInt32 (chunkSize params) \<longrightarrow>
      (\<exists>s w'. createUploadSession e w now newId params = (Inr s, w')
         \<and> completedAt s = None \<and> chunksReceived s = []
         \<and> expiresAt s = now + 60 * 60 * 1000
         \<and> totalSize s = totalSize params \<and> totalChunks s = totalChunks params
         \<and> chunkSize s = chunkSize params
         \<and> findUnique (uploadSession w') newId = Some s))
   \<and> (isValidHash (finalHash params) \<and>
       \<not> (isInt32 (totalSize params) \<and> isInt32 (totalChunks params) \<and>
          isInt32 (chunkSize params)) \<longrightarrow>
      createUploadSession e w now newId params =
        (Inl (PrismaError ''Value out of range for the type''), w))
   \<and> (\<not> isValidHash (req_finalHash body) \<or> req_totalSize body \<le> 0 \<or>
       req_totalChunks body \<le> 0 \<or> req_chunkSize body \<le> 0 \<longrightarrow>
      (\<exists>code. uploadStart e u t nid findModpack findVersion user slug version body =
                (Inl (400, code), u)))
   \<and> (req_type body \<in> {''icons'', ''items''} \<and> isValidHash (req_finalHash body) \<and>
       0 < req_totalSize body \<and> 0 < req_totalChunks body \<and> 0 < req_chunkSize body \<and>
       findModpack slug = Some modpackId \<and> findVersion modpackId version = Some versionId \<longrightarrow>
      (isInt32 (req_totalSize body) \<and> isInt32 (req_totalChunks body) \<and>
       isInt32 (req_chunkSize body) \<and> findUnique (uploadSession u) nid = None \<longrightarrow>
        (\<exists>u' s. uploadStart e u t nid findModpack findVersion user slug version body =
                (Inr \<lparr>start_sessionId = nid, start_expiresAt = t + 60 * 60 * 1000\<rparr>, u')
           \<and> findUnique (uploadSession u') nid = Some s
           \<and> completedAt s = None \<and> chunksReceived s = []))
      \<and> (\<not> (isInt32 (req_totalSize body) \<and> isInt32 (req_totalChunks body) \<and>
           isInt32 (req_chunkSize body)) \<longrightarrow>
        uploadStart e u t nid findModpack findVersion user slug version body =
          (Inl (500, ''SESSION_CREATE_FAILED''), u)))"
proof (intro conjI impI)
  assume "\<not> isValidHash (finalHash params)"
  then show "createUploadSession e w now newId params =
        (Inl (Error (''Invalid hash format: '' @ finalHash params)), w)"
    by (simp add: createUploadSession_def)
next
  assume a: "isValidHash (finalHash params) \<and> findUnique (uploadSession w) newId = None \<and>
       isInt32 (totalSize params) \<and> isInt32 (totalChunks params) \<and>
       isInt32 (chunkSize params)"
  then have fresh: "findUnique (uploadSession w) newId = None" by simp
  show "\<exists>s w'. createUploadSession e w now newId params = (Inr s, w')
         \<and> completedAt s = None \<and> chunksReceived s = []
         \<and> expiresAt s = now + 60 * 60 * 1000
         \<and> totalSize s = totalSize params \<and> totalChunks s = totalChunks params
         \<and> chunkSize s = chunkSize params
         \<and> findUnique (uploadSession w') newId = Some s"
    using createUploadSession_ok [of w newId params e now] a fresh
    by (simp add: findUnique_append_fresh)
next
  assume "isValidHash (finalHash params) \<and>
       \<not> (isInt32 (totalSize params) \<and> isInt32 (totalChunks params) \<and>
          isInt32 (chunkSize params))"
  then show "createUploadSession e w now newId params =
        (Inl (PrismaError ''Value out of range for the type''), w)"
    using createUploadSession_out_of_range [of params e w now newId] by blast
next
  assume "\<not> isValidHash (req_finalHash body) \<or> req_totalSize body \<le> 0 \<or>
       req_totalChunks body \<le> 0 \<or> req_chunkSize body \<le> 0"
  then show "\<exists>code. uploadStart e u t nid findModpack findVersion user slug version body =
                (Inl (400, code), u)"
    by (auto simp: uploadStart_def)
next
  assume a: "req_type body \<in> {''icons'', ''items''} \<and> isValidHash (req_finalHash body) \<and>
       0 < req_totalSize body \<and> 0 < req_totalChunks body \<and> 0 < req_chunkSize body \<and>
       findModpack slug = Some modpackId \<and> findVersion modpackId version = Some versionId"
  let ?params = "\<lparr>modpackVersionId = versionId, userId = user, type' = req_type body,
      totalSize = req_totalSize body, totalChunks = req_totalChunks body,
      chunkSize = req_chunkSize body, finalHash = req_finalHash body\<rparr>"
  from a have valid: "isValidHash (finalHash ?params)" by simp
  from a have nonempty: "req_finalHash body \<noteq> []"
    by (auto simp: isValidHash_def)
  have route: "uploadStart e u t nid findModpack findVersion user slug version body =
      (case createUploadSession e u t nid ?params of
         (Inl err, w1) \<Rightarrow> (Inl (500, ''SESSION_CREATE_FAILED''), w1)
       | (Inr session, w1) \<Rightarrow>
           (Inr \<lparr>start_sessionId = id' session, start_expiresAt = expiresAt session\<rparr>, w1))"
    using a nonempty by (auto simp: uploadStart_def)
  {
    assume b: "isInt32 (req_totalSize body) \<and> isInt32 (req_totalChunks body) \<and>
       isInt32 (req_chunkSize body) \<and> findUnique (uploadSession u) nid = None"
    then have fresh: "findUnique (uploadSession u) nid = None" by simp
    from b valid have created: "createUploadSession e u t nid ?params =
       (Inr \<lparr>modpackVersionId = modpackVersionId ?params, userId = userId ?params,
            type' = type' ?params, totalSize = totalSize ?params,
            totalChunks = totalChunks ?params, chunkSize = chunkSize ?params,
            finalHash = finalHash ?params, id' = nid, chunksReceived = [],
            expiresAt = t + 3600000, completedAt = None\<rparr>,
        u\<lparr>uploadSession := uploadSession u @
           [\<lparr>modpackVersionId = modpackVersionId ?params, userId = userId ?params,
             type' = type' ?params, totalSize = totalSize ?params,
             totalChunks = totalChunks ?params, chunkSize = chunkSize ?params,
             finalHash = finalHash ?params, id' = nid, chunksReceived = [],
             expiresAt = t + 3600000, completedAt = None\<rparr>],
          dirs := dirs u \<union> {p. prefix p (getSessionDir e nid)}\<rparr>)"
      by (intro createUploadSession_ok) simp_all
    show "\<exists>u' s. uploadStart e u t nid findModpack findVersion user slug version body =
                (Inr \<lparr>start_sessionId = nid, start_expiresAt = t + 60 * 60 * 1000\<rparr>, u')
           \<and> findUnique (uploadSession u') nid = Some s
           \<and> completedAt s = None \<and> chunksReceived s = []"
      unfolding route created using fresh by (simp add: findUnique_append_fresh)
  }
  {
    assume "\<not> (isInt32 (req_totalSize body) \<and> isInt32 (req_totalChunks body) \<and>
           isInt32 (req_chunkSize body))"
    with valid have "createUploadSession e u t nid ?params =
        (Inl (PrismaError ''Value out of range for the type''), u)"
      by (intro createUploadSession_out_of_range) simp_all
    then show "uploadStart e u t nid findModpack findVersion user slug version body =
          (Inl (500, ''SESSION_CREATE_FAILED''), u)"
      unfolding route by simp
  }
qed

theorem session_creation_validation_witness:
  "createUploadSession demo_env empty_world 0 ''s1'' (demo_params\<lparr>finalHash := ''sha256:xyz''\<rparr>) =
     (Inl (Error ''Invalid hash format: sha256:xyz''), empty_world)
   \<and> (\<exists>s w'. createUploadSession demo_env empty_world 0 ''s1'' demo_params = (Inr s, w')
         \<and> completedAt s = None \<and> chunksReceived s = [] \<and> expiresAt s = 3600000
         \<and> findUnique (uploadSession w') ''s1'' = Some s)
   \<and> createUploadSession demo_env empty_world 0 ''s1'' (demo_params\<lparr>totalSize := 2147483648\<rparr>) =
       (Inl (PrismaError ''Value out of range for the type''), empty_world)
   \<and> (\<exists>code. uploadStart demo_env empty_world 0 ''s1'' (\<lambda>slug. Some ''m1'')
         (\<lambda>m v. Some ''v1'') ''u1'' ''pack'' ''1.0'' (demo_request\<lparr>req_totalChunks := 0\<rparr>) =
           (Inl (400, code), empty_world))
   \<and> (\<exists>u' s. uploadStart demo_env empty_world 0 ''s1'' (\<lambda>slug. Some ''m1'')
         (\<lambda>m v. Some ''v1'') ''u1'' ''pack'' ''1.0'' demo_request =
           (Inr \<lparr>start_sessionId = ''s1'', start_expiresAt = 3600000\<rparr>, u')
         \<and> findUnique (uploadSession u') ''s1'' = Some s
         \<and> completedAt s = None \<and> chunksReceived s = [])
   \<and> uploadStart demo_env empty_world 0 ''s1'' (\<lambda>slug. Some ''m1'')
         (\<lambda>m v. Some ''v1'') ''u1'' ''pack'' ''1.0''
         (demo_request\<lparr>req_totalSize := 2147483648\<rparr>) =
       (Inl (500, ''SESSION_CREATE_FAILED''), empty_world)"
proof -
  have bad: "\<not> isValidHash (finalHash (demo_params\<lparr>finalHash := ''sha256:xyz''\<rparr>))"
    by (simp add: isValidHash_def)
  have fresh: "findUnique (uploadSession empty_world) ''s1'' = None"
    by (simp add: empty_world_def findUnique_def)
  have valid: "isValidHash (finalHash demo_params)"
    "isValidHash (finalHash (demo_params\<lparr>totalSize := 2147483648\<rparr>))"
    by (simp_all add: demo_params_def isValidHash_demo)
  have range: "isInt32 (totalSize demo_params)" "isInt32 (totalChunks demo_params)"
    "isInt32 (chunkSize demo_params)"
    "\<not> isInt32 (totalSize (demo_params\<lparr>totalSize := 2147483648\<rparr>))"
    by (simp_all add: demo_params_def isInt32_def)
  have zero: "req_totalChunks (demo_request\<lparr>req_totalChunks := 0\<rparr>) \<le> 0" by simp
  have req: "req_type demo_request \<in> {''icons'', ''items''}"
    "isValidHash (req_finalHash demo_request)"
    "0 < req_totalSize demo_request" "0 < req_totalChunks demo_request"
    "0 < req_chunkSize demo_request"
    "isInt32 (req_totalSize demo_request)" "isInt32 (req_totalChunks demo_request)"
    "isInt32 (req_chunkSize demo_request)"
    by (simp_all add: demo_request_def isValidHash_demo isInt32_def)
  have big: "req_type (demo_request\<lparr>req_totalSize := 2147483648\<rparr>) \<in> {''icons'', ''items''}"
    "isValidHash (req_finalHash (demo_request\<lparr>req_totalSize := 2147483648\<rparr>))"
    "0 < req_totalSize (demo_request\<lparr>req_totalSize := 2147483648\<rparr>)"
    "0 < req_totalChunks (demo_request\<lparr>req_totalSize := 2147483648\<rparr>)"
    "0 < req_chunkSize (demo_request\<lparr>req_totalSize := 2147483648\<rparr>)"
    "\<not> isInt32 (req_totalSize (demo_request\<lparr>req_totalSize := 2147483648\<rparr>))"
    by (simp_all add: demo_request_def isValidHash_demo isInt32_def)
  note inst = session_creation_validation [where e = demo_env and w = empty_world
      and now = 0 and newId = "''s1''" and u = empty_world and t = 0 and nid = "''s1''"
      and findModpack = "\<lambda>slug. Some ''m1''" and findVersion = "\<lambda>m v. Some ''v1''"
      and user = "''u1''" and slug = "''pack''" and version = "''1.0''"
      and modpackId = "''m1''" and versionId = "''v1''"]
  from inst [where params = "demo_params\<lparr>finalHash := ''sha256:xyz''\<rparr>" and body = demo_request,
      THEN conjunct1] bad
  have p1: "createUploadSession demo_env empty_world 0 ''s1'' (demo_params\<lparr>finalHash := ''sha256:xyz''\<rparr>) =
     (Inl (Error ''Invalid hash format: sha256:xyz''), empty_world)"
    by simp
  from inst [where params = demo_params and body = demo_request,
      THEN conjunct2, THEN conjunct1] valid fresh range
  have p2: "\<exists>s w'. createUploadSession demo_env empty_world 0 ''s1'' demo_params = (Inr s, w')
         \<and> completedAt s = None \<and> chunksReceived s = [] \<and> expiresAt s = 3600000
         \<and> findUnique (uploadSession w') ''s1'' = Some s"
    by auto
  from inst [where params = "demo_params\<lparr>totalSize := 2147483648\<rparr>" and body = demo_request,
      THEN conjunct2, THEN conjunct2, THEN conjunct1] valid range
  have p3: "createUploadSession demo_env empty_world 0 ''s1''
        (demo_params\<lparr>totalSize := 2147483648\<rparr>) =
       (Inl (PrismaError ''Value out of range for the type''), empty_world)"
    by blast
  from inst [where params = demo_params and body = "demo_request\<lparr>req_totalChunks := 0\<rparr>",
      THEN conjunct2, THEN conjunct2, THEN conjunct2, THEN conjunct1] zero
  have p4: "\<exists>code. uploadStart demo_env empty_world 0 ''s1'' (\<lambda>slug. Some ''m1'')
         (\<lambda>m v. Some ''v1'') ''u1'' ''pack'' ''1.0'' (demo_request\<lparr>req_totalChunks := 0\<rparr>) =
           (Inl (400, code), empty_world)"
    by blast
  from inst [where params = demo_params and body = demo_request,
      THEN conjunct2, THEN conjunct2, THEN conjunct2, THEN conjunct2] req fresh
  have p5: "\<exists>u' s. uploadStart demo_env empty_world 0 ''s1'' (\<lambda>slug. Some ''m1'')
         (\<lambda>m v. Some ''v1'') ''u1'' ''pack'' ''1.0'' demo_request =
           (Inr \<lparr>start_sessionId = ''s1'', start_expiresAt = 3600000\<rparr>, u')
         \<and> findUnique (uploadSession u') ''s1'' = Some s
         \<and> completedAt s = None \<and> chunksReceived s = []"
    by auto
  from inst [where params = demo_params
      and body = "demo_request\<lparr>req_totalSize := 2147483648\<rparr>",
      THEN conjunct2, THEN conjunct2, THEN conjunct2, THEN conjunct2] big
  have p6: "uploadStart demo_env empty_world 0 ''s1'' (\<lambda>slug. Some ''m1'')
         (\<lambda>m v. Some ''v1'') ''u1'' ''pack'' ''1.0''
         (demo_request\<lparr>req_totalSize := 2147483648\<rparr>) =
       (Inl (500, ''SESSION_CREATE_FAILED''), empty_world)"
    by blast
  from p1 p2 p3 p4 p5 p6 show ?thesis by blast
qed

text \<open>
  Claim C7 as the specification states it has \<open>createUploadSession\<close> fail on a
  number that is not positive. Here it creates a session of size 0 with -3 chunks of
  size 0.
\<close>

theorem session_creation_counterexample:
  "fst (createUploadSession demo_env empty_world 0 ''s1''
      (demo_params\<lparr>totalSize := 0, totalChunks := - 3, chunkSize := 0\<rparr>)) =
   Inr \<lparr>modpackVersionId = ''v1'', userId = ''u1'', type' = ''items'',
        totalSize = 0, totalChunks = - 3, chunkSize = 0,
        finalHash = hashBuffer demo_env (concat demo_pieces),
        id' = ''s1'', chunksReceived = [], expiresAt = 3600000, completedAt = None\<rparr>"
  by (simp add: createUploadSession_def prisma_create_def findUnique_def empty_world_def
      demo_params_def isValidHash_demo SESSION_EXPIRY_HOURS_def Let_def isInt32_def)

text \<open>
  Claim C8, as the code has it. Two \<open>storeChunk\<close> calls for the same session that run
  one after the other, while the directory of the session exists, both succeed and both
  indices are in \<open>chunksReceived\<close> afterwards, which stays sorted and free of repeats.
  A call that runs alone is its three steps. The update is no set union in the database:
  the last step writes the whole array the call computed from the row it read at its
  first step, whatever the row holds by then.
\<close>

theorem sequential_chunks_both_recorded:
  "(findUnique (uploadSession w) sid = Some s \<and> getSessionDir e sid \<in> dirs w \<and>
    \<not> expiresAt s < t1 \<and> \<not> expiresAt s < t2 \<and>
    0 \<le> i \<and> i < totalChunks s \<and> 0 \<le> j \<and> j < totalChunks s \<and>
    hashesMatch (hashBuffer e d1) h1 \<and> hashesMatch (hashBuffer e d2) h2
    \<longrightarrow>
    (\<exists>r1 w1 r2 w2 s2.
       storeChunk e w t1 sid i d1 h1 = (Inr r1, w1)
     \<and> storeChunk e w1 t2 sid j d2 h2 = (Inr r2, w2)
     \<and> findUnique (uploadSession w2) sid = Some s2
     \<and> set (chunksReceived s2) = insert j (insert i (set (chunksReceived s)))
     \<and> sorted (chunksReceived s2) \<and> distinct (chunksReceived s2)))
   \<and> interleave e now [True, True, True] (AwaitFindUnique sid' k d h, c2, v) =
       (Finished (fst (storeChunk e v now sid' k d h)), c2,
        snd (storeChunk e v now sid' k d h))
   \<and> (findUnique (uploadSession u) sid2 = Some row \<longrightarrow>
       (\<exists>r u'. storeChunk_step e now2 (AwaitUpdate s0 sid2 cr) u = (Finished (Inr r), u')
          \<and> findUnique (uploadSession u') sid2 = Some (row\<lparr>chunksReceived := cr\<rparr>)))"
  using two_sequential_chunks [of w sid s e t1 t2 i j d1 h1 d2 h2]
    storeChunk_runs_alone [of e now sid' k d h c2 v]
    update_step_overwrites [of u sid2 row e now2 s0 cr]
  by blast

theorem sequential_chunks_both_recorded_witness:
  "(\<exists>r1 w1 r2 w2 s2.
       storeChunk demo_env demo_wide_world 10 ''s1'' 5 [5] (hashBuffer demo_env [5]) = (Inr r1, w1)
     \<and> storeChunk demo_env w1 20 ''s1'' 7 [7] (hashBuffer demo_env [7]) = (Inr r2, w2)
     \<and> findUnique (uploadSession w2) ''s1'' = Some s2
     \<and> set (chunksReceived s2) = {5, 7})
   \<and> (\<exists>r u'. storeChunk_step demo_env 10
          (AwaitUpdate demo_wide_session ''s1'' [7]) (demo_wide_world
             \<lparr>uploadSession := [demo_wide_session\<lparr>chunksReceived := [5]\<rparr>]\<rparr>) =
            (Finished (Inr r), u')
        \<and> findUnique (uploadSession u') ''s1'' = Some (demo_wide_session\<lparr>chunksReceived := [7]\<rparr>))"
proof -
  have f: "findUnique (uploadSession demo_wide_world) ''s1'' = Some demo_wide_session"
    by (simp add: demo_wide_world_def findUnique_def demo_wide_session_def demo_session_def)
  have dir: "getSessionDir demo_env ''s1'' \<in> dirs demo_wide_world"
    by (simp add: demo_wide_world_def)
  have t: "\<not> expiresAt demo_wide_session < 10" "\<not> expiresAt demo_wide_session < 20"
    and n: "5 < totalChunks demo_wide_session" "7 < totalChunks demo_wide_session"
    and c: "chunksReceived demo_wide_session = []"
    by (simp_all add: demo_wide_session_def demo_session_def)
  have h: "hashesMatch (hashBuffer demo_env [5]) (hashBuffer demo_env [5])"
    "hashesMatch (hashBuffer demo_env [7]) (hashBuffer demo_env [7])"
    by (simp_all add: hashesMatch_iff)
  have g: "findUnique (uploadSession (demo_wide_world
             \<lparr>uploadSession := [demo_wide_session\<lparr>chunksReceived := [5]\<rparr>]\<rparr>)) ''s1'' =
           Some (demo_wide_session\<lparr>chunksReceived := [5]\<rparr>)"
    by (simp add: findUnique_def demo_wide_session_def demo_session_def)
  note inst = sequential_chunks_both_recorded [where w = demo_wide_world and sid = "''s1''"
      and s = demo_wide_session and ?t1.0 = 10 and ?t2.0 = 20 and i = 5 and j = 7
      and e = demo_env and ?d1.0 = "[5]" and ?h1.0 = "hashBuffer demo_env [5]"
      and ?d2.0 = "[7]" and ?h2.0 = "hashBuffer demo_env [7]"
      and u = "demo_wide_world\<lparr>uploadSession := [demo_wide_session\<lparr>chunksReceived := [5]\<rparr>]\<rparr>"
      and ?sid2.0 = "''s1''" and row = "demo_wide_session\<lparr>chunksReceived := [5]\<rparr>"
      and ?now2.0 = 10 and ?s0.0 = demo_wide_session and cr = "[7]"]
  from inst [THEN conjunct1] f dir t n h c
  have p1: "\<exists>r1 w1 r2 w2 s2.
       storeChunk demo_env demo_wide_world 10 ''s1'' 5 [5] (hashBuffer demo_env [5]) = (Inr r1, w1)
     \<and> storeChunk demo_env w1 20 ''s1'' 7 [7] (hashBuffer demo_env [7]) = (Inr r2, w2)
     \<and> findUnique (uploadSession w2) ''s1'' = Some s2
     \<and> set (chunksReceived s2) = {5, 7}"
    by (auto simp: insert_commute)
  from inst [THEN conjunct2, THEN conjunct2] g
  have p2: "\<exists>r u'. storeChunk_step demo_env 10
          (AwaitUpdate demo_wide_session ''s1'' [7]) (demo_wide_world
             \<lparr>uploadSession := [demo_wide_session\<lparr>chunksReceived := [5]\<rparr>]\<rparr>) =
            (Finished (Inr r), u')
        \<and> findUnique (uploadSession u') ''s1'' = Some (demo_wide_session\<lparr>chunksReceived := [7]\<rparr>)"
    by simp
  from p1 p2 show ?thesis by blast
qed

text \<open>
  Claim C8 as the specification states it has two overlapping calls for indices 5 and
  7 both recorded. Here the two calls take their steps in turn, both read the row
  before either writes it, both return success, and the row ends with \<open>[7]\<close>: index
  5 is lost and is reported missing. And in the state the complete route leaves, the
  directory of the session removed, two calls one after the other both fail with
  \<open>ENOENT\<close>.
\<close>

theorem concurrent_chunks_counterexample:
  "fst (interleave demo_env 10 [True, False, True, False, True, False]
     (AwaitFindUnique ''s1'' 5 [5] (hashBuffer demo_env [5]),
      AwaitFindUnique ''s1'' 7 [7] (hashBuffer demo_env [7]), demo_wide_world)) =
     Finished (Inr \<lparr>sc_verified = True,
        sc_session = demo_wide_session\<lparr>chunksReceived := [5]\<rparr>,
        sc_chunksReceived = 1, sc_chunksRemaining = 7\<rparr>)
   \<and> fst (snd (interleave demo_env 10 [True, False, True, False, True, False]
     (AwaitFindUnique ''s1'' 5 [5] (hashBuffer demo_env [5]),
      AwaitFindUnique ''s1'' 7 [7] (hashBuffer demo_env [7]), demo_wide_world))) =
     Finished (Inr \<lparr>sc_verified = True,
        sc_session = demo_wide_session\<lparr>chunksReceived := [7]\<rparr>,
        sc_chunksReceived = 1, sc_chunksRemaining = 7\<rparr>)
   \<and> map_option chunksReceived (findUnique (uploadSession
       (snd (snd (interleave demo_env 10 [True, False, True, False, True, False]
         (AwaitFindUnique ''s1'' 5 [5] (hashBuffer demo_env [5]),
          AwaitFindUnique ''s1'' 7 [7] (hashBuffer demo_env [7]), demo_wide_world))))) ''s1'') =
     Some [7]
   \<and> getMissingChunks (demo_wide_session\<lparr>chunksReceived := [7]\<rparr>) = [0, 1, 2, 3, 4, 5, 6]
   \<and> fst (storeChunk demo_env demo_cleaned_world 50 ''s1'' 0 [97, 98, 99, 100]
        (hashBuffer demo_env [97, 98, 99, 100])) =
      Inl (ENOENT [''uploads'', ''sessions'', ''s1'', ''chunk-000000''])
   \<and> fst (storeChunk demo_env demo_cleaned_world 60 ''s1'' 2 [105, 106]
        (hashBuffer demo_env [105, 106])) =
      Inl (ENOENT [''uploads'', ''sessions'', ''s1'', ''chunk-000002''])"
  by (simp add: eval_simps)

text \<open>
  Claim C9, as the code has it. \<open>storeChunk\<close> does not look at the length of the
  bytes: for an existing session that is not expired, whose directory exists, and an
  index in range, a buffer of any length whose hash matches the claimed hash is written
  to the chunk file and its index is recorded, whatever \<open>chunkSize\<close> and \<open>totalSize\<close>
  the session declares. Where the directory of the session is gone the write fails with
  \<open>ENOENT\<close> and nothing is written or recorded.
\<close>

theorem chunk_length_unchecked:
  assumes "findUnique (uploadSession w) sessionId = Some session"
    and "\<not> expiresAt session < now"
    and "0 \<le> chunkIndex" and "chunkIndex < totalChunks session"
    and "hashesMatch (hashBuffer e data) expectedHash"
  shows "(getSessionDir e sessionId \<in> dirs w \<longrightarrow>
      (\<exists>r w' session'.
          storeChunk e w now sessionId chunkIndex data expectedHash = (Inr r, w')
        \<and> files w' (getChunkPath e sessionId chunkIndex) = Some data
        \<and> findUnique (uploadSession w') sessionId = Some session'
        \<and> chunkIndex \<in> set (chunksReceived session')
        \<and> chunkSize session' = chunkSize session \<and> totalSize session' = totalSize session))
   \<and> (getSessionDir e sessionId \<notin> dirs w \<longrightarrow>
      storeChunk e w now sessionId chunkIndex data expectedHash =
        (Inl (ENOENT (getChunkPath e sessionId chunkIndex)), w))"
proof (intro conjI impI)
  assume dir: "getSessionDir e sessionId \<in> dirs w"
  from storeChunk_ok_find [OF assms dir]
  obtain r w' where "storeChunk e w now sessionId chunkIndex data expectedHash = (Inr r, w')"
    and "findUnique (uploadSession w') sessionId =
            Some (session\<lparr>chunksReceived := sort (Set_add (Set_from (chunksReceived session)) chunkIndex)\<rparr>)"
    and "files w' = (files w)(getChunkPath e sessionId chunkIndex \<mapsto> data)"
    by blast
  then show "\<exists>r w' session'.
          storeChunk e w now sessionId chunkIndex data expectedHash = (Inr r, w')
        \<and> files w' (getChunkPath e sessionId chunkIndex) = Some data
        \<and> findUnique (uploadSession w') sessionId = Some session'
        \<and> chunkIndex \<in> set (chunksReceived session')
        \<and> chunkSize session' = chunkSize session \<and> totalSize session' = totalSize session"
    by simp
next
  assume "getSessionDir e sessionId \<notin> dirs w"
  with assms show "storeChunk e w now sessionId chunkIndex data expectedHash =
        (Inl (ENOENT (getChunkPath e sessionId chunkIndex)), w)"
    by (rule storeChunk_no_dir)
qed

theorem chunk_length_unchecked_witness:
  "int (length (replicate 20 (7::8 word))) > chunkSize demo_partial_session
   \<and> int (length (replicate 20 (7::8 word))) > totalSize demo_partial_session
   \<and> (\<exists>r w' session'.
      storeChunk demo_env demo_partial_world 10 ''s1'' 1 (replicate 20 7)
         (hashBuffer demo_env (replicate 20 7)) = (Inr r, w')
    \<and> files w' (getChunkPath demo_env ''s1'' 1) = Some (replicate 20 7)
    \<and> findUnique (uploadSession w') ''s1'' = Some session'
    \<and> 1 \<in> set (chunksReceived session')
    \<and> chunkSize session' = chunkSize demo_partial_session
    \<and> totalSize session' = totalSize demo_partial_session)
   \<and> storeChunk demo_env demo_cleaned_world 50 ''s1'' 1 (replicate 20 7)
         (hashBuffer demo_env (replicate 20 7)) =
       (Inl (ENOENT (getChunkPath demo_env ''s1'' 1)), demo_cleaned_world)"
proof -
  have a: "\<not> expiresAt demo_partial_session < 10"
    and b: "(1::int) < totalChunks demo_partial_session"
    and c: "int (length (replicate 20 (7::8 word))) > chunkSize demo_partial_session"
    and d: "int (length (replicate 20 (7::8 word))) > totalSize demo_partial_session"
    by (simp_all add: demo_partial_session_def demo_session_def)
  have m: "hashesMatch (hashBuffer demo_env (replicate 20 7)) (hashBuffer demo_env (replicate 20 7))"
    by (simp add: hashesMatch_iff)
  have f: "findUnique (uploadSession demo_cleaned_world) ''s1'' =
      Some (demo_session\<lparr>completedAt := Some 40\<rparr>)"
    and g: "getSessionDir demo_env ''s1'' \<notin> dirs demo_cleaned_world"
    by (simp_all add: eval_simps)
  have a': "\<not> expiresAt (demo_session\<lparr>completedAt := Some 40\<rparr>) < 50"
    and b': "(1::int) < totalChunks (demo_session\<lparr>completedAt := Some 40\<rparr>)"
    by (simp_all add: demo_session_def)
  from chunk_length_unchecked [OF find_demo_partial a _ b m] dir_demo_partial
  have p1: "\<exists>r w' session'.
      storeChunk demo_env demo_partial_world 10 ''s1'' 1 (replicate 20 7)
         (hashBuffer demo_env (replicate 20 7)) = (Inr r, w')
    \<and> files w' (getChunkPath demo_env ''s1'' 1) = Some (replicate 20 7)
    \<and> findUnique (uploadSession w') ''s1'' = Some session'
    \<and> 1 \<in> set (chunksReceived session')
    \<and> chunkSize session' = chunkSize demo_partial_session
    \<and> totalSize session' = totalSize demo_partial_session"
    by simp
  from chunk_length_unchecked [OF f a' _ b' m] g
  have p2: "storeChunk demo_env demo_cleaned_world 50 ''s1'' 1 (replicate 20 7)
         (hashBuffer demo_env (replicate 20 7)) =
       (Inl (ENOENT (getChunkPath demo_env ''s1'' 1)), demo_cleaned_world)"
    by simp
  from c d p1 p2 show ?thesis by blast
qed

text \<open>
  Claim C9 as the specification states it has the chunk persisted for every existing,
  unexpired session. Here the session has been verified and its files cleaned up, as
  the complete route does; its row exists and its deadline has not passed, and the
  chunk with the matching hash is refused with \<open>ENOENT\<close> and not written.
\<close>

theorem cleaned_session_chunk_counterexample:
  "findUnique (uploadSession demo_cleaned_world) ''s1'' =
     Some (demo_session\<lparr>completedAt := Some 40\<rparr>)
   \<and> expiresAt demo_session = 3600000 \<and> totalChunks demo_session = 3
   \<and> hashesMatch (hashBuffer demo_env [101, 102, 103, 104])
        (hashBuffer demo_env [101, 102, 103, 104])
   \<and> storeChunk demo_env demo_cleaned_world 50 ''s1'' 1 [101, 102, 103, 104]
        (hashBuffer demo_env [101, 102, 103, 104]) =
      (Inl (ENOENT [''uploads'', ''sessions'', ''s1'', ''chunk-000001'']), demo_cleaned_world)
   \<and> files demo_cleaned_world (getChunkPath demo_env ''s1'' 1) = None"
  by (simp add: eval_simps)



end
